theory Spec2Isabelle
  imports Main "HOL-Library.Word"
begin

unbundle bit_operations_syntax

section \<open>Data model\<close>

text \<open>
  The codec of \<^verbatim>\<open>parity_checking.hpp\<close> / \<^verbatim>\<open>parity_checking.cc\<close>.
  \<^verbatim>\<open>unsigned char\<close> is an 8-bit word, \<^verbatim>\<open>unsigned short\<close> a 16-bit word and
  \<^verbatim>\<open>unsigned int\<close> a 32-bit word (\<^verbatim>\<open>sizeof(int) = 4\<close>, \<^verbatim>\<open>sizeof(short) = 2\<close>, as the
  serialized layout of the source assumes). A byte array is a list of bytes; the two owned
  arrays of a header are lists, and the null pointers of the default constructor are the empty
  list.
\<close>

type_synonym byte = "8 word"

record ParityHdr =
  check_sum :: "32 word"
  B :: "16 word"
  N :: "16 word"
  row_parities :: "byte list"
  col_parities :: "byte list"

text \<open>
  The class invariant that the constructors establish: each array has as many bytes as its
  dimension says.
\<close>

definition hdr_wf :: "ParityHdr \<Rightarrow> bool" where
  "hdr_wf h \<longleftrightarrow>
     length (row_parities h) = unat (B h) \<and> length (col_parities h) = unat (N h)"

text \<open>
  A C++ \<^verbatim>\<open>int\<close> has 32 bits. \<open>to_int32 x\<close> is what an \<^verbatim>\<open>int\<close> holds after an
  arithmetic result \<open>x\<close> has been stored in it: \<open>x\<close> itself when it fits, and otherwise the
  two's complement reading of its low 32 bits. The language leaves signed overflow undefined;
  the model takes the wrap-around that the usual targets produce.
\<close>

definition to_int32 :: "int \<Rightarrow> int" where
  "to_int32 x = signed_take_bit 31 x"

section \<open>Parity primitives and construction\<close>

text \<open>
  \<^verbatim>\<open>byte_parity\<close>: eight rounds of \<^verbatim>\<open>p ^= c & 1; c >>= 1\<close>. The loop state is the pair
  \<open>(p, c)\<close>.
\<close>

definition byte_parity_step :: "byte \<times> byte \<Rightarrow> byte \<times> byte" where
  "byte_parity_step pc = (fst pc XOR (snd pc AND 1), drop_bit 1 (snd pc))"

definition byte_parity :: "byte \<Rightarrow> byte" where
  "byte_parity c = fst ((byte_parity_step ^^ 8) (0, c))"

text \<open>
  \<^verbatim>\<open>calculate_parities\<close>: both arrays are zeroed, then for every \<open>i\<close> below
  \<^verbatim>\<open>int L = B * N\<close> the byte \<open>i\<close> is folded into row \<open>i % B\<close> and its parity into
  column \<open>i / B\<close>. Both factors are promoted to \<^verbatim>\<open>int\<close> and the product is formed in
  \<^verbatim>\<open>int\<close>, so \<open>L\<close> is read through \<open>to_int32\<close>; the loop runs for \<open>0 \<le> i < L\<close> and
  not at all when \<open>L \<le> 0\<close>. The caller owes an array of \<open>B * N\<close> bytes; \<open>byte_array ! i\<close>
  is a byte of it for every \<open>i\<close> below its length.
\<close>

definition parities_step :: "nat \<Rightarrow> byte list \<Rightarrow> nat \<Rightarrow> byte list \<times> byte list \<Rightarrow> byte list \<times> byte list" where
  "parities_step b byte_array i rc =
     ((fst rc)[i mod b := (fst rc) ! (i mod b) XOR byte_array ! i],
      (snd rc)[i div b := (snd rc) ! (i div b) XOR byte_parity (byte_array ! i)])"

definition calculate_parities :: "ParityHdr \<Rightarrow> byte list \<Rightarrow> ParityHdr" where
  "calculate_parities h byte_array =
     (let L = to_int32 (uint (B h) * uint (N h));
          rc = fold (parities_step (unat (B h)) byte_array) [0..<nat L]
                 (replicate (unat (B h)) 0, replicate (unat (N h)) 0)
      in h\<lparr>row_parities := fst rc, col_parities := snd rc\<rparr>)"

text \<open>
  \<^verbatim>\<open>calc_check_sum\<close>: \<^verbatim>\<open>unsigned\<close> accumulation, starting from \<^verbatim>\<open>B + N\<close>, of every
  row parity and then every column parity.
\<close>

definition calc_check_sum :: "ParityHdr \<Rightarrow> 32 word" where
  "calc_check_sum h =
     (let chk_sum = ucast (B h) + ucast (N h);
          chk_sum = fold (\<lambda>i s. s + ucast (row_parities h ! i)) [0..<unat (B h)] chk_sum;
          chk_sum = fold (\<lambda>j s. s + ucast (col_parities h ! j)) [0..<unat (N h)] chk_sum
      in chk_sum)"

definition confirm_check_sum :: "ParityHdr \<Rightarrow> bool" where
  "confirm_check_sum h \<longleftrightarrow> check_sum h = calc_check_sum h"

text \<open>The default constructor: all zero, both pointers null.\<close>

definition ParityHdr_default :: ParityHdr where
  "ParityHdr_default =
     \<lparr>check_sum = 0, B = 0, N = 0, row_parities = [], col_parities = []\<rparr>"

text \<open>The constructor from dimensions and a byte array.\<close>

definition ParityHdr_ctor :: "16 word \<Rightarrow> 16 word \<Rightarrow> byte list \<Rightarrow> ParityHdr" where
  "ParityHdr_ctor rows cols byte_array =
     (let h = calculate_parities
                \<lparr>check_sum = 0, B = rows, N = cols, row_parities = [], col_parities = []\<rparr>
                byte_array
      in h\<lparr>check_sum := calc_check_sum h\<rparr>)"

section \<open>Wire codec\<close>

text \<open>
  The fixed-width fields are copied with \<^verbatim>\<open>memcpy\<close> from and to the object, in the byte
  order of the machine; the model fixes little-endian. \<open>check_sum\<close>, \<open>B\<close> and \<open>N\<close> are the
  first eight bytes of the object, in this order.
\<close>

definition le32_bytes :: "32 word \<Rightarrow> byte list" where
  "le32_bytes w = [ucast w, ucast (drop_bit 8 w), ucast (drop_bit 16 w), ucast (drop_bit 24 w)]"

definition le16_bytes :: "16 word \<Rightarrow> byte list" where
  "le16_bytes w = [ucast w, ucast (drop_bit 8 w)]"

definition le32_word :: "byte list \<Rightarrow> 32 word" where
  "le32_word bs =
     ucast (bs ! 0) OR push_bit 8 (ucast (bs ! 1)) OR push_bit 16 (ucast (bs ! 2))
       OR push_bit 24 (ucast (bs ! 3))"

definition le16_word :: "byte list \<Rightarrow> 16 word" where
  "le16_word bs = ucast (bs ! 0) OR push_bit 8 (ucast (bs ! 1))"

text \<open>\<open>bytes_at m off n\<close>: the \<open>n\<close> bytes at \<^verbatim>\<open>m + off\<close>.\<close>

definition bytes_at :: "byte list \<Rightarrow> nat \<Rightarrow> nat \<Rightarrow> byte list" where
  "bytes_at m off n = take n (drop off m)"

text \<open>The first eight bytes of the object: \<open>check_sum\<close>, \<open>B\<close>, \<open>N\<close>.\<close>

definition hdr_prefix :: "ParityHdr \<Rightarrow> byte list" where
  "hdr_prefix h = le32_bytes (check_sum h) @ le16_bytes (B h) @ le16_bytes (N h)"

definition sum_row_parities :: "nat \<Rightarrow> (nat \<Rightarrow> byte) \<Rightarrow> 32 word" where
  "sum_row_parities n rd = fold (\<lambda>b s. s + ucast (rd b)) [0..<n] 0"

text \<open>
  \<^verbatim>\<open>serialize\<close>: the prefix twice, the \<^verbatim>\<open>unsigned\<close> sum of the row parities, then the
  \<open>B\<close> row parities and the \<open>N\<close> column parities.
\<close>

definition serialize :: "ParityHdr \<Rightarrow> byte list" where
  "serialize h =
     hdr_prefix h @ hdr_prefix h
       @ le32_bytes (sum_row_parities (unat (B h)) (\<lambda>b. row_parities h ! b))
       @ take (unat (B h)) (row_parities h) @ take (unat (N h)) (col_parities h)"

text \<open>
  \<^verbatim>\<open>load_from_serialized\<close> returns its \<^verbatim>\<open>bool\<close> together with the object as the call
  leaves it. The order of the source is kept: the comparison of the two prefix copies, the
  \<^verbatim>\<open>memcpy\<close> of the first copy over \<open>check_sum\<close>, \<open>B\<close>, \<open>N\<close>, the test
  \<^verbatim>\<open>B + N > check_sum\<close> (in \<^verbatim>\<open>unsigned\<close>), the row-parity sum, the two fresh arrays,
  and \<open>confirm_check_sum\<close> as the result.
\<close>

definition load_from_serialized :: "ParityHdr \<Rightarrow> byte list \<Rightarrow> bool \<times> ParityHdr" where
  "load_from_serialized h ser_PH =
     (if bytes_at ser_PH 0 8 \<noteq> bytes_at ser_PH 8 8 then (False, h)
      else
        let h1 = h\<lparr>check_sum := le32_word (bytes_at ser_PH 0 4),
                   B := le16_word (bytes_at ser_PH 4 2),
                   N := le16_word (bytes_at ser_PH 6 2)\<rparr>
        in if (ucast (B h1) + ucast (N h1) :: 32 word) > check_sum h1 then (False, h1)
           else if sum_row_parities (unat (B h1)) (\<lambda>b. ser_PH ! (20 + b))
                     \<noteq> le32_word (bytes_at ser_PH 16 4) then (False, h1)
           else
             let h2 = h1\<lparr>row_parities := bytes_at ser_PH 20 (unat (B h1)),
                         col_parities := bytes_at ser_PH (20 + unat (B h1)) (unat (N h1))\<rparr>
             in (confirm_check_sum h2, h2))"

section \<open>Comparison and repair\<close>

text \<open>\<^verbatim>\<open>operator==\<close>: the three scalars, then \<^verbatim>\<open>memcmp\<close> over \<open>B\<close> and over \<open>N\<close> bytes.\<close>

definition operator_eq :: "ParityHdr \<Rightarrow> ParityHdr \<Rightarrow> bool" where
  "operator_eq lhs rhs =
     (if check_sum lhs \<noteq> check_sum rhs \<or> B lhs \<noteq> B rhs \<or> N lhs \<noteq> N rhs then False
      else if take (unat (B lhs)) (row_parities lhs) \<noteq> take (unat (B lhs)) (row_parities rhs)
        then False
      else if take (unat (N lhs)) (col_parities lhs) \<noteq> take (unat (N lhs)) (col_parities rhs)
        then False
      else True)"

text \<open>
  The two exception classes of the source: \<^verbatim>\<open>std::runtime_error\<close>, thrown by
  \<^verbatim>\<open>repair_byte_array\<close> itself, and its subclass \<^verbatim>\<open>PC_Exception\<close>, thrown by
  \<^verbatim>\<open>find_error_locations\<close>; each carries its \<^verbatim>\<open>what()\<close> string.
\<close>

datatype exn = runtime_error string | PC_Exception string

definition msg_bad_check_sum :: string where
  "msg_bad_check_sum = ''BadCheckSum() in repair_byte_array''"

definition msg_dimension_mismatch :: string where
  "msg_dimension_mismatch = ''ParityHdr DimensionMismatch in repair_byte_array.''"

definition msg_no_col :: string where
  "msg_no_col =
     ''In find_error_locations, Couldn't locate a col with a parity mismatch.'' @ [CHR 0x0A]"

definition msg_many_cols :: string where
  "msg_many_cols =
     ''In find_error_locations, More than 1 col had a parity mismatch.'' @ [CHR 0x0A]"

definition msg_no_row :: string where
  "msg_no_row =
     ''In find_error_locations, Couldn't locate a row with a parity mismatch.'' @ [CHR 0x0A]"

definition msg_many_rows :: string where
  "msg_many_rows =
     ''In find_error_locations, More than 1 row had a parity mismatch.'' @ [CHR 0x0A]"

definition msg_many_bits :: string where
  "msg_many_bits =
     ''In find_error_locations, More than 1 bad bit found in the bad byte.'' @ [CHR 0x0A]"

text \<open>
  The two scanning loops of \<^verbatim>\<open>find_error_locations\<close> have one shape: count the indices
  below \<open>n\<close> where the two arrays differ and remember the last one. The state is
  \<open>(n_errors, index)\<close>.
\<close>

definition mismatch_step :: "byte list \<Rightarrow> byte list \<Rightarrow> nat \<Rightarrow> int \<times> int \<Rightarrow> int \<times> int" where
  "mismatch_step xs ys k st =
     (if xs ! k \<noteq> ys ! k then (fst st + 1, int k) else st)"

definition scan_mismatch :: "byte list \<Rightarrow> byte list \<Rightarrow> nat \<Rightarrow> int \<Rightarrow> int \<times> int" where
  "scan_mismatch xs ys n prev = fold (mismatch_step xs ys) [0..<n] (0, prev)"

text \<open>
  The bit loop: eight rounds of testing \<^verbatim>\<open>0x80 & flips\<close> and shifting \<open>flips\<close> left
  by one inside its \<^verbatim>\<open>unsigned char\<close>. The state is \<open>(flips, flipped_bit, cnt)\<close>.
\<close>

definition bit_step :: "nat \<Rightarrow> byte \<times> int \<times> int \<Rightarrow> byte \<times> int \<times> int" where
  "bit_step b st =
     (case st of (flips, flipped_bit, cnt) \<Rightarrow>
        if 0x80 AND flips \<noteq> 0 then (push_bit 1 flips, int b, cnt + 1)
        else (push_bit 1 flips, flipped_bit, cnt))"

definition scan_bits :: "byte \<Rightarrow> int \<times> int" where
  "scan_bits flips = snd (fold bit_step [0..<8] (flips, -1, 0))"

text \<open>
  \<^verbatim>\<open>find_error_locations\<close> takes the values behind \<^verbatim>\<open>int* i\<close> and \<^verbatim>\<open>int* j\<close> and
  returns them as it leaves them, or the exception it throws.
\<close>

definition find_error_locations ::
  "ParityHdr \<Rightarrow> ParityHdr \<Rightarrow> int \<times> int \<Rightarrow> exn + int \<times> int" where
  "find_error_locations rcvd_hdr t_hdr ij =
     (let (n_errors, j) =
            scan_mismatch (col_parities rcvd_hdr) (col_parities t_hdr) (unat (N rcvd_hdr)) (snd ij)
      in if n_errors = 0 then Inl (PC_Exception msg_no_col)
         else if n_errors > 1 then Inl (PC_Exception msg_many_cols)
         else
           let (n_errors, i) =
                 scan_mismatch (row_parities rcvd_hdr) (row_parities t_hdr) (unat (B rcvd_hdr))
                   (fst ij)
           in if n_errors = 0 then Inl (PC_Exception msg_no_row)
              else if n_errors > 1 then Inl (PC_Exception msg_many_rows)
              else
                let flips = row_parities rcvd_hdr ! nat i XOR row_parities t_hdr ! nat i;
                    (flipped_bit, cnt) = scan_bits flips
                in if cnt \<noteq> 1 then Inl (PC_Exception msg_many_bits)
                   else Inr (8 * i + flipped_bit, j))"

text \<open>
  \<^verbatim>\<open>t[idx] ^= m\<close>. An index outside the array is undefined behaviour in the source; the
  model leaves the array as it is there.
\<close>

definition xor_at :: "byte list \<Rightarrow> int \<Rightarrow> byte \<Rightarrow> byte list" where
  "xor_at t idx m =
     (if 0 \<le> idx \<and> nat idx < length t then t[nat idx := t ! nat idx XOR m] else t)"

text \<open>
  \<^verbatim>\<open>repair_byte_array\<close> returns the exception it throws, if any, together with the byte
  array \<open>t\<close> as the call leaves it. Where the last statement is reached \<open>i\<close> is not
  negative, so \<^verbatim>\<open>i / 8\<close> and \<^verbatim>\<open>i % 8\<close> are \<open>div\<close> and \<open>mod\<close>; the index
  \<^verbatim>\<open>j * rcvd_hdr.B + i / 8\<close> is computed in \<^verbatim>\<open>int\<close>.
\<close>

definition repair_byte_array :: "ParityHdr \<Rightarrow> ParityHdr \<Rightarrow> byte list \<Rightarrow> exn option \<times> byte list" where
  "repair_byte_array rcvd_hdr t_hdr t =
     (if \<not> confirm_check_sum rcvd_hdr then (Some (runtime_error msg_bad_check_sum), t)
      else if operator_eq rcvd_hdr t_hdr then (None, t)
      else if B rcvd_hdr \<noteq> B t_hdr \<or> N rcvd_hdr \<noteq> N t_hdr
        then (Some (runtime_error msg_dimension_mismatch), t)
      else
        case find_error_locations rcvd_hdr t_hdr (-1, -1) of
          Inl e \<Rightarrow> (Some e, t)
        | Inr (i, j) \<Rightarrow>
            (None,
             xor_at t (to_int32 (to_int32 (j * uint (B rcvd_hdr)) + i div 8))
               (drop_bit (nat (i mod 8)) 0x80)))"

text \<open>
  The channel of \<^verbatim>\<open>demo1_main.cc\<close> flips bit \<open>idx\<close> of a transmitted array with
  \<^verbatim>\<open>s[idx / 8] ^= 0x80 >> idx % 8\<close>: bit \<open>idx mod 8\<close>, counted from the most significant,
  of byte \<open>idx div 8\<close>.
\<close>

definition flip_bit_at :: "byte list \<Rightarrow> nat \<Rightarrow> byte list" where
  "flip_bit_at s idx = s[idx div 8 := s ! (idx div 8) XOR drop_bit (idx mod 8) 0x80]"

section \<open>Specification-level notions\<close>

text \<open>
  The XOR of a sequence of bytes, the XOR of the eight bits of a byte, and the two parities
  as the data model describes them: \<open>row_xor b buf k r\<close> is the XOR of the bytes at the
  positions \<open>i < k\<close> with \<open>i mod b = r\<close>, and \<open>col_xor b buf k c\<close> the XOR of the bit
  parities of the bytes at the positions \<open>i < k\<close> with \<open>i div b = c\<close>.
\<close>

definition xor_list :: "byte list \<Rightarrow> byte" where
  "xor_list xs = fold (\<lambda>x acc. acc XOR x) xs 0"

definition bits_xor :: "byte \<Rightarrow> byte" where
  "bits_xor c = xor_list (map (\<lambda>k. of_bool (bit c k)) [0..<8])"

definition row_xor :: "nat \<Rightarrow> byte list \<Rightarrow> nat \<Rightarrow> nat \<Rightarrow> byte" where
  "row_xor b buf k r = xor_list (map (\<lambda>i. buf ! i) (filter (\<lambda>i. i mod b = r) [0..<k]))"

definition col_xor :: "nat \<Rightarrow> byte list \<Rightarrow> nat \<Rightarrow> nat \<Rightarrow> byte" where
  "col_xor b buf k c =
     xor_list (map (\<lambda>i. bits_xor (buf ! i)) (filter (\<lambda>i. i div b = c) [0..<k]))"

text \<open>The invariant of the loop of \<open>calculate_parities\<close> after \<open>k\<close> rounds.\<close>

definition parities_inv :: "nat \<Rightarrow> nat \<Rightarrow> byte list \<Rightarrow> nat \<Rightarrow> byte list \<times> byte list \<Rightarrow> bool" where
  "parities_inv b c buf k rc \<longleftrightarrow>
     length (fst rc) = b \<and> length (snd rc) = c
     \<and> (\<forall>r<b. fst rc ! r = row_xor b buf k r) \<and> (\<forall>j<c. snd rc ! j = col_xor b buf k j)"

text \<open>
  The checksum as the data model states it: \<open>rows + cols\<close> plus the sum of the row parities
  plus the sum of the column parities, each widened to 32 bits and added in 32 bits.
\<close>

definition spec_check_sum :: "ParityHdr \<Rightarrow> 32 word" where
  "spec_check_sum h =
     ucast (B h) + ucast (N h) + sum_list (map ucast (row_parities h))
       + sum_list (map ucast (col_parities h))"


text \<open>
  The conditions that \<open>load_from_serialized\<close> tests on a byte sequence, and the values it
  reads from it, under names: the two prefix copies agree; the three scalars of the first
  copy; the test \<^verbatim>\<open>B + N > check_sum\<close> does not fire; the transmitted row-parity sum
  agrees with the sum of the row-parity bytes; the two payloads.
\<close>

definition prefix_ok :: "byte list \<Rightarrow> bool" where
  "prefix_ok m \<longleftrightarrow> bytes_at m 0 8 = bytes_at m 8 8"

definition msg_check_sum :: "byte list \<Rightarrow> 32 word" where
  "msg_check_sum m = le32_word (bytes_at m 0 4)"

definition msg_B :: "byte list \<Rightarrow> 16 word" where
  "msg_B m = le16_word (bytes_at m 4 2)"

definition msg_N :: "byte list \<Rightarrow> 16 word" where
  "msg_N m = le16_word (bytes_at m 6 2)"

definition dims_ok :: "byte list \<Rightarrow> bool" where
  "dims_ok m \<longleftrightarrow> \<not> (ucast (msg_B m) + ucast (msg_N m) :: 32 word) > msg_check_sum m"

definition row_sum_ok :: "byte list \<Rightarrow> bool" where
  "row_sum_ok m \<longleftrightarrow>
     sum_row_parities (unat (msg_B m)) (\<lambda>b. m ! (20 + b)) = le32_word (bytes_at m 16 4)"

definition msg_rows :: "byte list \<Rightarrow> byte list" where
  "msg_rows m = bytes_at m 20 (unat (msg_B m))"

definition msg_cols :: "byte list \<Rightarrow> byte list" where
  "msg_cols m = bytes_at m (20 + unat (msg_B m)) (unat (msg_N m))"

text \<open>
  What \<open>find_error_locations\<close> counts: the column indices and the row indices at which
  the parities of the two headers differ, in increasing order; the XOR of the two row
  parities at the last such row; and the positions, counted from the most significant bit,
  of the bits that are set in a byte.
\<close>

definition col_mismatches :: "ParityHdr \<Rightarrow> ParityHdr \<Rightarrow> nat list" where
  "col_mismatches rcvd_hdr t_hdr =
     filter (\<lambda>col. col_parities rcvd_hdr ! col \<noteq> col_parities t_hdr ! col)
       [0..<unat (N rcvd_hdr)]"

definition row_mismatches :: "ParityHdr \<Rightarrow> ParityHdr \<Rightarrow> nat list" where
  "row_mismatches rcvd_hdr t_hdr =
     filter (\<lambda>row. row_parities rcvd_hdr ! row \<noteq> row_parities t_hdr ! row)
       [0..<unat (B rcvd_hdr)]"

definition bad_byte :: "ParityHdr \<Rightarrow> ParityHdr \<Rightarrow> byte" where
  "bad_byte rcvd_hdr t_hdr =
     row_parities rcvd_hdr ! last (row_mismatches rcvd_hdr t_hdr)
       XOR row_parities t_hdr ! last (row_mismatches rcvd_hdr t_hdr)"

definition set_bits :: "byte \<Rightarrow> nat list" where
  "set_bits x = filter (\<lambda>b. bit x (7 - b)) [0..<8]"

section \<open>Parities of a byte and of a byte array\<close>

text \<open>
  \<open>byte_parity\<close> is linear over XOR and is the XOR of the eight bits; the loop of
  \<open>calculate_parities\<close> keeps \<open>parities_inv\<close>, as long as \<open>B * N\<close> fits an \<^verbatim>\<open>int\<close>.
\<close>

lemma xor_list_Nil: "xor_list [] = 0"
  by (simp add: xor_list_def)

lemma xor_list_snoc: "xor_list (xs @ [x]) = xor_list xs XOR x"
  by (simp add: xor_list_def)

lemma byte_parity_unfold:
  "byte_parity c =
     (c AND 1) XOR (drop_bit 1 c AND 1) XOR (drop_bit 2 c AND 1) XOR (drop_bit 3 c AND 1)
       XOR (drop_bit 4 c AND 1) XOR (drop_bit 5 c AND 1) XOR (drop_bit 6 c AND 1)
       XOR (drop_bit 7 c AND 1)"
  by (simp add: byte_parity_def byte_parity_step_def eval_nat_numeral drop_bit_Suc ac_simps)

lemma byte_parity_xor: "byte_parity (x XOR y) = byte_parity x XOR byte_parity y"
  by (simp add: byte_parity_unfold bit.conj_xor_distrib bit.conj_xor_distrib2 ac_simps)

lemma upt_8: "[0..<8] = [0, 1, 2, 3, 4, 5, 6, 7 :: nat]"
  by (simp add: upt_rec)

lemma drop_bit_and_one: "drop_bit k (c :: byte) AND 1 = of_bool (bit c k)"
  by (simp add: and_one_eq mod_2_eq_odd bit_iff_odd_drop_bit)

lemma byte_parity_bits: "byte_parity c = bits_xor c"
proof -
  have "c AND 1 = drop_bit 0 c AND 1" by simp
  then show ?thesis
    unfolding byte_parity_unfold bits_xor_def xor_list_def upt_8
    by (simp only: drop_bit_and_one list.map fold_simps xor.left_neutral xor.assoc)
qed

lemma byte_parity_mask: "k < 8 \<Longrightarrow> byte_parity (drop_bit k 0x80) = 1"
proof -
  assume "k < 8"
  then have "k \<in> {0, 1, 2, 3, 4, 5, 6, 7}" by auto
  then show ?thesis
    by (auto simp: byte_parity_unfold)
qed


lemma row_xor_Suc:
  "row_xor b buf (Suc k) r = (if k mod b = r then row_xor b buf k r XOR buf ! k else row_xor b buf k r)"
  by (simp add: row_xor_def xor_list_snoc)

lemma col_xor_Suc:
  "col_xor b buf (Suc k) c =
     (if k div b = c then col_xor b buf k c XOR byte_parity (buf ! k) else col_xor b buf k c)"
  by (simp add: col_xor_def xor_list_snoc byte_parity_bits)

lemma parities_inv_step:
  assumes "0 < b" and "parities_inv b c buf k rc"
  shows "parities_inv b c buf (Suc k) (parities_step b buf k rc)"
proof -
  from assms(1) have kb: "k mod b < b" by simp
  from assms(2) kb show ?thesis
    by (auto simp: parities_inv_def parities_step_def row_xor_Suc col_xor_Suc nth_list_update)
qed

lemma parities_inv_fold:
  assumes "0 < b"
  shows "parities_inv b c buf k
           (fold (parities_step b buf) [0..<k] (replicate b 0, replicate c 0))"
proof (induction k)
  case 0
  show ?case by (simp add: parities_inv_def row_xor_def col_xor_def xor_list_Nil)
next
  case (Suc k)
  from parities_inv_step [OF assms Suc] show ?case by simp
qed

lemma to_int32_small: "0 \<le> x \<Longrightarrow> x \<le> 2147483647 \<Longrightarrow> to_int32 x = x"
  by (simp add: to_int32_def signed_take_bit_int_eq_self)

lemma uint_mult_unat: "uint (x :: 16 word) * uint (y :: 16 word) = int (unat x * unat y)"
  by simp

lemma nat_int32_prod:
  assumes "unat (x :: 16 word) * unat (y :: 16 word) \<le> 2147483647"
  shows "nat (to_int32 (uint x * uint y)) = unat x * unat y"
proof -
  from assms have "int (unat x * unat y) \<le> int 2147483647"
    by (simp only: of_nat_le_iff)
  then have "to_int32 (int (unat x * unat y)) = int (unat x * unat y)"
    by (intro to_int32_small) simp_all
  then have "nat (to_int32 (int (unat x * unat y))) = unat x * unat y"
    by (simp only: nat_int)
  then show ?thesis
    by (simp only: uint_mult_unat)
qed

lemma calculate_parities_inv:
  assumes "unat (B h) * unat (N h) \<le> 2147483647"
  shows "parities_inv (unat (B h)) (unat (N h)) buf (unat (B h) * unat (N h))
           (row_parities (calculate_parities h buf), col_parities (calculate_parities h buf))"
proof (cases "unat (B h) = 0")
  case True
  then have "uint (B h) = 0" by (simp add: unat_eq_0)
  with True show ?thesis
    by (simp add: calculate_parities_def Let_def to_int32_def parities_inv_def col_xor_def
        xor_list_Nil)
next
  case False
  then have pos: "0 < unat (B h)" by simp
  from parities_inv_fold [OF pos, of "unat (N h)" buf "unat (B h) * unat (N h)"]
  show ?thesis
    by (simp add: calculate_parities_def Let_def nat_int32_prod [OF assms])
qed

lemma calculate_parities_scalars:
  "check_sum (calculate_parities h buf) = check_sum h \<and> B (calculate_parities h buf) = B h
   \<and> N (calculate_parities h buf) = N h"
  by (simp add: calculate_parities_def Let_def)

lemma ctor_scalars:
  "B (ParityHdr_ctor rows cols buf) = rows \<and> N (ParityHdr_ctor rows cols buf) = cols"
  by (simp add: ParityHdr_ctor_def Let_def calculate_parities_scalars)

lemma ctor_inv:
  assumes "unat rows * unat cols \<le> 2147483647"
  shows "parities_inv (unat rows) (unat cols) buf (unat rows * unat cols)
           (row_parities (ParityHdr_ctor rows cols buf), col_parities (ParityHdr_ctor rows cols buf))"
  using calculate_parities_inv
    [of "\<lparr>check_sum = 0, B = rows, N = cols, row_parities = [], col_parities = []\<rparr>" buf] assms
  by (simp add: ParityHdr_ctor_def Let_def)

section \<open>One flipped bit\<close>

text \<open>
  Changing one byte of the array by XOR with \<open>m\<close> changes one row parity by \<open>m\<close> and one
  column parity by the parity of \<open>m\<close>; the scanning loops then find one mismatch each.
\<close>

lemma xor_list_map_upd:
  assumes "distinct js"
  shows "xor_list (map (\<lambda>i. if i = p then g i XOR d else g i) js)
           = (if p \<in> set js then xor_list (map g js) XOR d else xor_list (map g js))"
  using assms
proof (induction js rule: rev_induct)
  case Nil
  show ?case by simp
next
  case (snoc x xs)
  then show ?case
    by (auto simp: xor_list_snoc ac_simps)
qed

lemma row_xor_update:
  assumes "p < length s"
  shows "row_xor b (s[p := s ! p XOR m]) k r
           = (if p < k \<and> p mod b = r then row_xor b s k r XOR m else row_xor b s k r)"
proof -
  have "(\<lambda>i. s[p := s ! p XOR m] ! i) = (\<lambda>i. if i = p then s ! i XOR m else s ! i)"
    using assms by (auto simp: nth_list_update)
  then show ?thesis
    unfolding row_xor_def
    by (simp add: xor_list_map_upd)
qed

lemma col_xor_update:
  assumes "p < length s" and "byte_parity m = 1"
  shows "col_xor b (s[p := s ! p XOR m]) k c
           = (if p < k \<and> p div b = c then col_xor b s k c XOR 1 else col_xor b s k c)"
proof -
  have "(\<lambda>i. bits_xor (s[p := s ! p XOR m] ! i))
          = (\<lambda>i. if i = p then bits_xor (s ! i) XOR 1 else bits_xor (s ! i))"
    using assms by (auto simp: nth_list_update byte_parity_bits [symmetric] byte_parity_xor)
  then show ?thesis
    unfolding col_xor_def
    by (simp add: xor_list_map_upd)
qed

lemma filter_eq_upt: "filter (\<lambda>k. k = q) [0..<n] = (if q < n then [q] else [])"
  by (induction n) auto

lemma scan_mismatch_eq:
  "scan_mismatch xs ys n prev =
     (int (length (filter (\<lambda>k. xs ! k \<noteq> ys ! k) [0..<n])),
      if filter (\<lambda>k. xs ! k \<noteq> ys ! k) [0..<n] = [] then prev
      else int (last (filter (\<lambda>k. xs ! k \<noteq> ys ! k) [0..<n])))"
  by (induction n) (auto simp: scan_mismatch_def mismatch_step_def)

lemma xor_ne_self: "d \<noteq> 0 \<Longrightarrow> (x :: byte) XOR d \<noteq> x"
  by (metis xor.right_neutral xor.left_commute xor_self_eq)

lemma mismatch_update:
  assumes "q < length (xs :: byte list)" and "d \<noteq> 0"
  shows "filter (\<lambda>k. xs ! k \<noteq> xs[q := xs ! q XOR d] ! k) [0..<n] = (if q < n then [q] else [])"
proof -
  have "(\<lambda>k. xs ! k \<noteq> xs[q := xs ! q XOR d] ! k) = (\<lambda>k. k = q)"
    using assms xor_ne_self [of d "xs ! q"] by (auto simp: nth_list_update fun_eq_iff)
  then show ?thesis by (simp add: filter_eq_upt)
qed

lemma scan_bits_mask: "k < 8 \<Longrightarrow> scan_bits (drop_bit k 0x80) = (int k, 1)"
proof -
  assume "k < 8"
  then have "k \<in> {0, 1, 2, 3, 4, 5, 6, 7}" by auto
  then show ?thesis
    by (auto simp: scan_bits_def upt_8 bit_step_def)
qed

lemma mask_nonzero: "k < 8 \<Longrightarrow> drop_bit k (0x80 :: byte) \<noteq> 0"
proof -
  assume "k < 8"
  then have "k \<in> {0, 1, 2, 3, 4, 5, 6, 7}" by auto
  then show ?thesis by auto
qed

lemma fold_parities_length:
  "length (fst (fold (parities_step b buf) js rc)) = length (fst rc)
   \<and> length (snd (fold (parities_step b buf) js rc)) = length (snd rc)"
  by (induction js arbitrary: rc) (simp_all add: parities_step_def)

lemma ctor_wf: "hdr_wf (ParityHdr_ctor rows cols buf)"
  by (simp add: hdr_wf_def ParityHdr_ctor_def calculate_parities_def Let_def fold_parities_length)

lemma calc_check_sum_update: "calc_check_sum (h\<lparr>check_sum := x\<rparr>) = calc_check_sum h"
  by (simp add: calc_check_sum_def)

lemma ctor_confirm: "confirm_check_sum (ParityHdr_ctor rows cols buf)"
  by (simp add: confirm_check_sum_def ParityHdr_ctor_def Let_def calc_check_sum_update)

lemma ctor_flip_rows:
  assumes "unat rows * unat cols \<le> 2147483647"
    and "length s = unat rows * unat cols"
    and "p < length s"
  shows "row_parities (ParityHdr_ctor rows cols (s[p := s ! p XOR m]))
           = (row_parities (ParityHdr_ctor rows cols s))
               [p mod unat rows := row_parities (ParityHdr_ctor rows cols s) ! (p mod unat rows) XOR m]"
proof (rule nth_equalityI)
  note inv_s = ctor_inv [OF assms(1), of s, unfolded parities_inv_def, simplified]
  note inv_t = ctor_inv [OF assms(1), of "s[p := s ! p XOR m]", unfolded parities_inv_def, simplified]
  show "length (row_parities (ParityHdr_ctor rows cols (s[p := s ! p XOR m])))
          = length ((row_parities (ParityHdr_ctor rows cols s))
               [p mod unat rows := row_parities (ParityHdr_ctor rows cols s) ! (p mod unat rows) XOR m])"
    using inv_s inv_t by simp
  fix r
  assume "r < length (row_parities (ParityHdr_ctor rows cols (s[p := s ! p XOR m])))"
  with inv_t have r: "r < unat rows" by simp
  with inv_s inv_t assms(2,3) show "row_parities (ParityHdr_ctor rows cols (s[p := s ! p XOR m])) ! r
          = (row_parities (ParityHdr_ctor rows cols s))
               [p mod unat rows := row_parities (ParityHdr_ctor rows cols s) ! (p mod unat rows) XOR m] ! r"
    by (simp add: row_xor_update nth_list_update)
qed

lemma ctor_flip_cols:
  assumes "unat rows * unat cols \<le> 2147483647"
    and "length s = unat rows * unat cols"
    and "p < length s"
    and "byte_parity m = 1"
  shows "col_parities (ParityHdr_ctor rows cols (s[p := s ! p XOR m]))
           = (col_parities (ParityHdr_ctor rows cols s))
               [p div unat rows := col_parities (ParityHdr_ctor rows cols s) ! (p div unat rows) XOR 1]"
proof (rule nth_equalityI)
  note inv_s = ctor_inv [OF assms(1), of s, unfolded parities_inv_def, simplified]
  note inv_t = ctor_inv [OF assms(1), of "s[p := s ! p XOR m]", unfolded parities_inv_def, simplified]
  show "length (col_parities (ParityHdr_ctor rows cols (s[p := s ! p XOR m])))
          = length ((col_parities (ParityHdr_ctor rows cols s))
               [p div unat rows := col_parities (ParityHdr_ctor rows cols s) ! (p div unat rows) XOR 1])"
    using inv_s inv_t by simp
  fix c
  assume "c < length (col_parities (ParityHdr_ctor rows cols (s[p := s ! p XOR m])))"
  with inv_t have c: "c < unat cols" by simp
  with inv_s inv_t assms(2,3,4) show "col_parities (ParityHdr_ctor rows cols (s[p := s ! p XOR m])) ! c
          = (col_parities (ParityHdr_ctor rows cols s))
               [p div unat rows := col_parities (ParityHdr_ctor rows cols s) ! (p div unat rows) XOR 1] ! c"
    by (simp add: col_xor_update nth_list_update)
qed

section \<open>Locating and repairing one flipped bit\<close>

text \<open>
  With one column parity and one row parity changed, the latter by a single bit,
  \<open>find_error_locations\<close> returns the position of that bit and the final statement of
  \<open>repair_byte_array\<close> flips it back.
\<close>

lemma scan_mismatch_update:
  assumes "q < length (xs :: byte list)" and "q < n" and "d \<noteq> 0"
  shows "scan_mismatch xs (xs[q := xs ! q XOR d]) n prev = (1, int q)"
  using assms by (simp add: scan_mismatch_eq mismatch_update)

lemma xor_xor_self: "(x :: byte) XOR (x XOR m) = m"
  by (simp add: xor.assoc [symmetric])

lemma find_error_locations_flip:
  assumes cols: "col_parities ht = (col_parities hr)[q := col_parities hr ! q XOR 1]"
    and q: "q < length (col_parities hr)" "q < unat (N hr)"
    and rows: "row_parities ht = (row_parities hr)[r := row_parities hr ! r XOR drop_bit k 0x80]"
    and r: "r < length (row_parities hr)" "r < unat (B hr)"
    and k: "k < 8"
  shows "find_error_locations hr ht ij = Inr (8 * int r + int k, int q)"
proof -
  have c: "scan_mismatch (col_parities hr) (col_parities ht) (unat (N hr)) (snd ij) = (1, int q)"
    unfolding cols using q by (intro scan_mismatch_update) simp_all
  have rw: "scan_mismatch (row_parities hr) (row_parities ht) (unat (B hr)) (fst ij) = (1, int r)"
    unfolding rows using r k by (intro scan_mismatch_update) (simp_all add: mask_nonzero)
  have fl: "row_parities hr ! r XOR row_parities ht ! r = drop_bit k 0x80"
    unfolding rows using r by (simp add: xor_xor_self)
  show ?thesis
    by (simp add: find_error_locations_def c rw fl scan_bits_mask [OF k])
qed

lemma flip_back: "p < length s \<Longrightarrow> xor_at (s[p := s ! p XOR m]) (int p) m = s"
  by (simp add: xor_at_def xor.assoc list_update_same_conv)

lemma repair_index:
  assumes "unat rows * unat cols \<le> 2147483647" and "p < unat rows * unat cols" and "k < 8"
  shows "to_int32 (to_int32 (int (p div unat rows) * uint rows) + (8 * int (p mod unat rows) + int k) div 8)
           = int p"
proof -
  have a: "int (p div unat rows) * uint rows = int (p div unat rows * unat rows)" by simp
  have "p div unat rows * unat rows \<le> p" by simp
  with assms have le: "p div unat rows * unat rows \<le> 2147483647" by linarith
  then have "int (p div unat rows * unat rows) \<le> int 2147483647" by (simp only: of_nat_le_iff)
  then have "to_int32 (int (p div unat rows * unat rows)) = int (p div unat rows * unat rows)"
    by (intro to_int32_small) simp_all
  then have b: "to_int32 (int (p div unat rows) * uint rows) = int (p div unat rows * unat rows)"
    by (simp only: a)
  from assms(3) have c: "(8 * int (p mod unat rows) + int k) div 8 = int (p mod unat rows)" by simp
  have d: "int (p div unat rows * unat rows) + int (p mod unat rows) = int p"
    by (simp only: of_nat_add [symmetric] div_mult_mod_eq)
  from assms have "p \<le> 2147483647" by linarith
  then have "int p \<le> int 2147483647" by (simp only: of_nat_le_iff)
  then have "to_int32 (int p) = int p" by (intro to_int32_small) simp_all
  then show ?thesis by (simp only: b c d)
qed

lemma operator_eq_rows:
  "operator_eq lhs rhs \<Longrightarrow>
     take (unat (B lhs)) (row_parities lhs) = take (unat (B lhs)) (row_parities rhs)"
  by (simp add: operator_eq_def split: if_splits)

lemma repair_found:
  assumes "confirm_check_sum hr" and "\<not> operator_eq hr ht" and "B hr = B ht" and "N hr = N ht"
    and "find_error_locations hr ht (-1, -1) = Inr (i, j)"
  shows "repair_byte_array hr ht t
           = (None, xor_at t (to_int32 (to_int32 (j * uint (B hr)) + i div 8))
                      (drop_bit (nat (i mod 8)) 0x80))"
  using assms by (simp add: repair_byte_array_def)

lemma repair_flip:
  assumes bound: "unat rows * unat cols \<le> 2147483647"
    and len: "length s = unat rows * unat cols"
    and idx: "idx < 8 * length s"
  shows "confirm_check_sum (ParityHdr_ctor rows cols s)
       \<and> repair_byte_array (ParityHdr_ctor rows cols s) (ParityHdr_ctor rows cols (flip_bit_at s idx))
           (flip_bit_at s idx) = (None, s)"
proof -
  define p where "p = idx div 8"
  define k where "k = idx mod 8"
  define m :: byte where "m = drop_bit k 0x80"
  define hs where "hs = ParityHdr_ctor rows cols s"
  define ht where "ht = ParityHdr_ctor rows cols (s[p := s ! p XOR m])"
  have t: "flip_bit_at s idx = s[p := s ! p XOR m]"
    by (simp add: flip_bit_at_def p_def k_def m_def)
  from idx have p: "p < length s" by (simp add: p_def)
  have k: "k < 8" by (simp add: k_def)
  from p len have pb: "p < unat rows * unat cols" by simp
  then have rows_pos: "0 < unat rows" by (cases "unat rows") simp_all
  then have r: "p mod unat rows < unat rows" by simp
  from pb rows_pos have q: "p div unat rows < unat cols"
    by (simp add: less_mult_imp_div_less mult.commute)
  have wf: "length (row_parities hs) = unat rows" "length (col_parities hs) = unat cols"
    "B hs = rows" "N hs = cols" "B ht = rows" "N ht = cols"
    using ctor_wf [of rows cols s] by (simp_all add: hs_def ht_def hdr_wf_def ctor_scalars)
  have rw: "row_parities ht
              = (row_parities hs)[p mod unat rows := row_parities hs ! (p mod unat rows) XOR m]"
    unfolding hs_def ht_def by (rule ctor_flip_rows [OF bound len p])
  have cl: "col_parities ht
              = (col_parities hs)[p div unat rows := col_parities hs ! (p div unat rows) XOR 1]"
    unfolding hs_def ht_def
    by (rule ctor_flip_cols [OF bound len p]) (simp add: m_def byte_parity_mask [OF k])
  have fe: "find_error_locations hs ht (-1, -1)
              = Inr (8 * int (p mod unat rows) + int k, int (p div unat rows))"
    by (rule find_error_locations_flip [OF cl _ _ rw [unfolded m_def] _ _ k])
      (simp_all add: wf q r)
  have neq: "\<not> operator_eq hs ht"
  proof
    assume "operator_eq hs ht"
    then have "take (unat rows) (row_parities hs) = take (unat rows) (row_parities ht)"
      using operator_eq_rows [of hs ht] by (simp add: wf)
    then have "row_parities hs ! (p mod unat rows) = row_parities ht ! (p mod unat rows)"
      using r by (metis nth_take)
    then have "row_parities hs ! (p mod unat rows) = row_parities hs ! (p mod unat rows) XOR m"
      unfolding rw using r wf(1) by simp
    with xor_ne_self [OF mask_nonzero [OF k], of "row_parities hs ! (p mod unat rows)"]
    show False by (simp add: m_def)
  qed
  have conf: "confirm_check_sum hs" by (simp add: hs_def ctor_confirm)
  have md: "nat ((8 * int (p mod unat rows) + int k) mod 8) = k"
    using k by simp
  have "repair_byte_array hs ht (s[p := s ! p XOR m])
          = (None, xor_at (s[p := s ! p XOR m])
               (to_int32 (to_int32 (int (p div unat rows) * uint (B hs))
                  + (8 * int (p mod unat rows) + int k) div 8))
               (drop_bit (nat ((8 * int (p mod unat rows) + int k) mod 8)) 0x80))"
    by (rule repair_found [OF conf neq _ _ fe]) (simp_all add: wf)
  also have "\<dots> = (None, s)"
    by (simp only: wf repair_index [OF bound pb k] md m_def [symmetric] flip_back [OF p])
  finally have "repair_byte_array hs ht (s[p := s ! p XOR m]) = (None, s)" .
  with conf show ?thesis by (simp add: t hs_def ht_def)
qed

section \<open>Buffers longer than an int\<close>

text \<open>
  When \<open>B * N\<close> exceeds \<open>2147483647\<close> it is still below \<open>2 ^ 32\<close>, so \<open>L\<close> is negative,
  the loop of \<open>calculate_parities\<close> does not run and every parity stays zero.
\<close>

lemma int32_prod_overflow:
  assumes "2147483647 < unat (x :: 16 word) * unat (y :: 16 word)"
  shows "to_int32 (uint x * uint y) < 0"
proof -
  define p where "p = uint x * uint y"
  have "int (unat x * unat y) = p" by (simp add: p_def)
  moreover from assms have "int 2147483647 < int (unat x * unat y)" by (simp only: of_nat_less_iff)
  ultimately have lo: "2147483648 \<le> p" by simp
  have "uint x \<le> 65535" "uint y \<le> 65535"
    using uint_lt2p [of x] uint_lt2p [of y] by simp_all
  then have "uint x * uint y \<le> 65535 * 65535"
    by (intro mult_mono) simp_all
  then have hi: "p < 4294967296" by (simp add: p_def)
  have "(p + 2147483648) mod 4294967296 = (p + 2147483648 - 4294967296) mod 4294967296"
    by (simp only: minus_mod_self2)
  also from lo hi have "\<dots> = p + 2147483648 - 4294967296"
    by (intro mod_pos_pos_trivial) simp_all
  finally have "signed_take_bit 31 p = p - 4294967296"
    by (simp add: signed_take_bit_eq_take_bit_shift take_bit_eq_mod)
  with hi show ?thesis by (simp add: to_int32_def p_def)
qed

lemma ctor_overflow:
  assumes "2147483647 < unat rows * unat cols"
  shows "ParityHdr_ctor rows cols buf = ParityHdr_ctor rows cols []"
  using int32_prod_overflow [OF assms]
  by (simp add: ParityHdr_ctor_def calculate_parities_def Let_def)

lemma ctor_overflow_rows:
  assumes "2147483647 < unat rows * unat cols"
  shows "row_parities (ParityHdr_ctor rows cols buf) = replicate (unat rows) 0"
  using int32_prod_overflow [OF assms]
  by (simp add: ParityHdr_ctor_def calculate_parities_def Let_def)

lemma row_xor_zeros: "k \<le> n \<Longrightarrow> row_xor b (replicate n 0) k r = 0"
  by (induction k) (simp_all add: row_xor_Suc, simp add: row_xor_def xor_list_Nil)

lemma operator_eq_refl: "operator_eq h h"
  by (simp add: operator_eq_def)

lemma overflow_parity_values:
  assumes "2147483647 < unat rows * unat cols" and "0 < n"
  shows "row_parities (ParityHdr_ctor rows cols (flip_bit_at (replicate n 0) 0)) ! 0 = 0
       \<and> row_xor (unat rows) (flip_bit_at (replicate n 0) 0) n 0 = 0x80"
proof -
  from assms(1) have "0 < unat rows" by (cases "unat rows") simp_all
  then have l: "row_parities (ParityHdr_ctor rows cols (flip_bit_at (replicate n 0) 0)) ! 0 = 0"
    by (simp add: ctor_overflow_rows [OF assms(1)])
  have f: "flip_bit_at (replicate n 0) 0 = (replicate n 0)[0 := replicate n 0 ! 0 XOR 0x80]"
    by (simp add: flip_bit_at_def)
  have "row_xor (unat rows) (flip_bit_at (replicate n 0) 0) n 0 = 0x80"
    unfolding f using assms(2) by (subst row_xor_update) (simp_all add: row_xor_zeros)
  with l show ?thesis by simp
qed

lemma overflow_repair_value:
  assumes "2147483647 < unat rows * unat cols"
  shows "repair_byte_array (ParityHdr_ctor rows cols (replicate n 0))
           (ParityHdr_ctor rows cols (flip_bit_at (replicate n 0) 0)) (flip_bit_at (replicate n 0) 0)
           = (None, flip_bit_at (replicate n 0) 0)"
  by (simp add: ctor_overflow [OF assms, of "replicate n 0"]
      ctor_overflow [OF assms, of "flip_bit_at (replicate n 0) 0"]
      repair_byte_array_def ctor_confirm operator_eq_refl)

lemma flipped_zeros_differ:
  assumes "0 < n"
  shows "flip_bit_at (replicate n (0 :: byte)) 0 \<noteq> replicate n 0"
proof
  assume "flip_bit_at (replicate n (0 :: byte)) 0 = replicate n 0"
  then have "flip_bit_at (replicate n (0 :: byte)) 0 ! 0 = replicate n (0 :: byte) ! 0"
    by simp
  with assms show False
    by (simp add: flip_bit_at_def)
qed

section \<open>The checksum\<close>

text \<open>
  The two index loops of \<open>calc_check_sum\<close> add up the widened elements of the arrays.
\<close>

lemma fold_index_sum:
  "fold (\<lambda>i s. s + f (xs ! i)) [0..<length xs] (a :: 32 word) = a + sum_list (map f xs)"
proof (induction xs arbitrary: a rule: rev_induct)
  case Nil
  show ?case by simp
next
  case (snoc x xs)
  have "fold (\<lambda>i s. s + f ((xs @ [x]) ! i)) [0..<length xs] a
          = fold (\<lambda>i s. s + f (xs ! i)) [0..<length xs] a"
    by (rule fold_cong) (simp_all add: nth_append)
  with snoc show ?case by (simp add: add.assoc)
qed

lemma calc_check_sum_spec:
  assumes "hdr_wf h"
  shows "calc_check_sum h = spec_check_sum h"
  using assms fold_index_sum [of ucast "row_parities h"] fold_index_sum [of ucast "col_parities h"]
  by (simp add: calc_check_sum_def spec_check_sum_def hdr_wf_def Let_def)

section \<open>The fixed-width fields\<close>

text \<open>
  Encoding and decoding a 32-bit or a 16-bit field are inverse to each other.
\<close>

lemma le32_word_bytes: "le32_word (le32_bytes w) = w"
proof (rule bit_word_eqI)
  fix n
  assume "n < LENGTH(32)"
  then have n: "n < 32" by simp
  consider "n < 8" | "8 \<le> n" "n < 16" | "16 \<le> n" "n < 24" | "24 \<le> n"
    by linarith
  then show "bit (le32_word (le32_bytes w)) n = bit w n"
    using n by cases (auto simp: le32_word_def le32_bytes_def bit_simps)
qed

lemma le16_word_bytes: "le16_word (le16_bytes w) = w"
proof (rule bit_word_eqI)
  fix n
  assume "n < LENGTH(16)"
  then have n: "n < 16" by simp
  consider "n < 8" | "8 \<le> n"
    by linarith
  then show "bit (le16_word (le16_bytes w)) n = bit w n"
    using n by cases (auto simp: le16_word_def le16_bytes_def bit_simps)
qed

lemma le32_bytes_list:
  "le32_bytes (le32_word [b0, b1, b2, b3]) = [b0, b1, b2, b3]"
  apply (simp add: le32_word_def le32_bytes_def)
  apply (intro conjI bit_word_eqI)
  apply (auto simp: bit_simps dest: bit_imp_le_length)
  done

lemma length_4_cases:
  assumes "length bs = 4"
  obtains b0 b1 b2 b3 where "bs = [b0, b1, b2, b3]"
proof -
  from assms have "bs = [bs ! 0, bs ! 1, bs ! 2, bs ! 3]"
    by (intro nth_equalityI) (auto simp: nth_Cons' less_Suc_eq numeral_eq_Suc)
  then show ?thesis by (rule that)
qed

lemma le32_bytes_word: "length bs = 4 \<Longrightarrow> le32_bytes (le32_word bs) = bs"
  by (erule length_4_cases) (simp only: le32_bytes_list)

section \<open>The serialized layout\<close>

text \<open>
  The checksum of a header that satisfies the class invariant does not wrap, so \<open>B + N\<close>
  never exceeds it; and the fields of a serialized header lie where the layout says.
\<close>

lemma sum_list_ucast:
  "(sum_list (map ucast (xs :: byte list)) :: 32 word) = of_nat (sum_list (map unat xs))"
  by (induction xs) simp_all

lemma sum_list_unat_le: "sum_list (map unat (xs :: byte list)) \<le> 255 * length xs"
proof (induction xs)
  case Nil
  show ?case by simp
next
  case (Cons x xs)
  have "unat x < 2 ^ LENGTH(8)" by (rule unsigned_less)
  then have "unat x \<le> 255" by simp
  with Cons show ?case by simp
qed

lemma spec_check_sum_unat:
  assumes "hdr_wf h"
  shows "unat (spec_check_sum h)
           = unat (B h) + unat (N h) + sum_list (map unat (row_parities h))
               + sum_list (map unat (col_parities h))"
proof -
  have b: "unat (B h) < 65536" "unat (N h) < 65536"
    using unsigned_less [of "B h"] unsigned_less [of "N h"] by simp_all
  from assms have r: "sum_list (map unat (row_parities h)) \<le> 255 * unat (B h)"
    using sum_list_unat_le [of "row_parities h"] by (simp add: hdr_wf_def)
  from assms have c: "sum_list (map unat (col_parities h)) \<le> 255 * unat (N h)"
    using sum_list_unat_le [of "col_parities h"] by (simp add: hdr_wf_def)
  have "spec_check_sum h
          = of_nat (unat (B h) + unat (N h) + sum_list (map unat (row_parities h))
               + sum_list (map unat (col_parities h)))"
    by (simp add: spec_check_sum_def sum_list_ucast)
  moreover from b r c have "unat (B h) + unat (N h) + sum_list (map unat (row_parities h))
               + sum_list (map unat (col_parities h)) < 2 ^ LENGTH(32)"
    by simp
  ultimately show ?thesis
    by (intro of_nat_inverse) simp_all
qed

lemma dims_le_check_sum:
  assumes "hdr_wf h" and "confirm_check_sum h"
  shows "\<not> (ucast (B h) + ucast (N h) :: 32 word) > check_sum h"
proof -
  have b: "unat (B h) < 65536" "unat (N h) < 65536"
    using unsigned_less [of "B h"] unsigned_less [of "N h"] by simp_all
  have "(ucast (B h) + ucast (N h) :: 32 word) = of_nat (unat (B h) + unat (N h))"
    by simp
  moreover from b have "unat (B h) + unat (N h) < 2 ^ LENGTH(32)" by simp
  ultimately have "unat (ucast (B h) + ucast (N h) :: 32 word) = unat (B h) + unat (N h)"
    by (intro of_nat_inverse) simp_all
  moreover from assms have "check_sum h = spec_check_sum h"
    by (simp add: confirm_check_sum_def calc_check_sum_spec)
  ultimately show ?thesis
    using spec_check_sum_unat [OF assms(1)] by (simp add: word_less_nat_alt)
qed

lemma length_le32_bytes: "length (le32_bytes w) = 4"
  by (simp add: le32_bytes_def)

lemma length_le16_bytes: "length (le16_bytes w) = 2"
  by (simp add: le16_bytes_def)

lemma length_hdr_prefix: "length (hdr_prefix h) = 8"
  by (simp add: hdr_prefix_def length_le32_bytes length_le16_bytes)

lemma length_serialize:
  "hdr_wf h \<Longrightarrow> length (serialize h) = 20 + unat (B h) + unat (N h)"
  by (simp add: serialize_def hdr_wf_def length_hdr_prefix length_le32_bytes)

lemma serialize_fields:
  assumes "hdr_wf h"
  shows "bytes_at (serialize h) 0 8 = hdr_prefix h"
    and "bytes_at (serialize h) 8 8 = hdr_prefix h"
    and "bytes_at (serialize h) 0 4 = le32_bytes (check_sum h)"
    and "bytes_at (serialize h) 4 2 = le16_bytes (B h)"
    and "bytes_at (serialize h) 6 2 = le16_bytes (N h)"
    and "bytes_at (serialize h) 16 4
           = le32_bytes (sum_row_parities (unat (B h)) (\<lambda>b. row_parities h ! b))"
    and "bytes_at (serialize h) 20 (unat (B h)) = row_parities h"
    and "bytes_at (serialize h) (20 + unat (B h)) (unat (N h)) = col_parities h"
  using assms
  by (simp_all add: serialize_def bytes_at_def hdr_wf_def length_hdr_prefix length_le32_bytes
      length_le16_bytes hdr_prefix_def)

lemma serialize_row_byte:
  assumes "hdr_wf h" and "b < unat (B h)"
  shows "serialize h ! (20 + b) = row_parities h ! b"
  using assms
  by (simp add: serialize_def hdr_wf_def nth_append length_hdr_prefix length_le32_bytes)

lemma sum_row_parities_cong:
  "(\<And>b. b < n \<Longrightarrow> f b = g b) \<Longrightarrow> sum_row_parities n f = sum_row_parities n g"
  unfolding sum_row_parities_def by (rule fold_cong) simp_all

section \<open>Loading a serialized header\<close>

text \<open>
  A byte sequence on which the three checks pass is loaded in full; the serialization of a
  header that satisfies the class invariant and its own checksum is such a sequence.
\<close>

lemma calc_check_sum_cong:
  assumes "B h1 = B h2" and "N h1 = N h2" and "row_parities h1 = row_parities h2"
    and "col_parities h1 = col_parities h2"
  shows "calc_check_sum h1 = calc_check_sum h2"
  using assms by (simp add: calc_check_sum_def)

lemma serialize_sum:
  assumes "hdr_wf h"
  shows "sum_row_parities (unat (B h)) (\<lambda>b. serialize h ! (20 + b))
           = sum_row_parities (unat (B h)) (\<lambda>b. row_parities h ! b)"
  by (rule sum_row_parities_cong) (simp add: serialize_row_byte [OF assms])

lemma load_from_serialized_passes:
  assumes eq: "bytes_at m 0 8 = bytes_at m 8 8"
    and dims: "\<not> (ucast (le16_word (bytes_at m 4 2)) + ucast (le16_word (bytes_at m 6 2)) :: 32 word)
                 > le32_word (bytes_at m 0 4)"
    and sum: "sum_row_parities (unat (le16_word (bytes_at m 4 2))) (\<lambda>b. m ! (20 + b))
                = le32_word (bytes_at m 16 4)"
  shows "load_from_serialized tgt m =
           (confirm_check_sum
              (tgt\<lparr>check_sum := le32_word (bytes_at m 0 4), B := le16_word (bytes_at m 4 2),
                   N := le16_word (bytes_at m 6 2),
                   row_parities := bytes_at m 20 (unat (le16_word (bytes_at m 4 2))),
                   col_parities := bytes_at m (20 + unat (le16_word (bytes_at m 4 2)))
                                     (unat (le16_word (bytes_at m 6 2)))\<rparr>),
            tgt\<lparr>check_sum := le32_word (bytes_at m 0 4), B := le16_word (bytes_at m 4 2),
                   N := le16_word (bytes_at m 6 2),
                   row_parities := bytes_at m 20 (unat (le16_word (bytes_at m 4 2))),
                   col_parities := bytes_at m (20 + unat (le16_word (bytes_at m 4 2)))
                                     (unat (le16_word (bytes_at m 6 2)))\<rparr>)"
  using assms by (simp add: load_from_serialized_def Let_def)

lemma load_serialized:
  assumes wf: "hdr_wf h" and conf: "confirm_check_sum h"
  shows "load_from_serialized tgt (serialize h)
           = (True, tgt\<lparr>check_sum := check_sum h, B := B h, N := N h,
                         row_parities := row_parities h, col_parities := col_parities h\<rparr>)"
proof -
  note f = serialize_fields [OF wf]
  have c: "confirm_check_sum (tgt\<lparr>check_sum := check_sum h, B := B h, N := N h,
                         row_parities := row_parities h, col_parities := col_parities h\<rparr>)"
    using conf
      calc_check_sum_cong [of "tgt\<lparr>check_sum := check_sum h, B := B h, N := N h,
                         row_parities := row_parities h, col_parities := col_parities h\<rparr>" h]
    by (simp add: confirm_check_sum_def)
  have "load_from_serialized tgt (serialize h) =
           (confirm_check_sum
              (tgt\<lparr>check_sum := check_sum h, B := B h, N := N h,
                         row_parities := row_parities h, col_parities := col_parities h\<rparr>),
            tgt\<lparr>check_sum := check_sum h, B := B h, N := N h,
                         row_parities := row_parities h, col_parities := col_parities h\<rparr>)"
    using dims_le_check_sum [OF wf conf]
    by (subst load_from_serialized_passes)
      (simp_all add: f le32_word_bytes le16_word_bytes serialize_sum [OF wf])
  with c show ?thesis by simp
qed

lemma hdr_replace_all:
  "(tgt :: ParityHdr)\<lparr>check_sum := check_sum h, B := B h, N := N h,
         row_parities := row_parities h, col_parities := col_parities h\<rparr> = h"
  by (cases tgt, cases h) simp

section \<open>Failed loads\<close>

text \<open>
  \<open>load_from_serialized\<close> by the check that decides it, and the effect of one flipped bit
  in the first twenty bytes of a serialized header.
\<close>

lemma load_from_serialized_cases:
  "load_from_serialized tgt m =
     (if \<not> prefix_ok m then (False, tgt)
      else if \<not> dims_ok m \<or> \<not> row_sum_ok m
        then (False, tgt\<lparr>check_sum := msg_check_sum m, B := msg_B m, N := msg_N m\<rparr>)
      else (confirm_check_sum
              (tgt\<lparr>check_sum := msg_check_sum m, B := msg_B m, N := msg_N m,
                   row_parities := msg_rows m, col_parities := msg_cols m\<rparr>),
            tgt\<lparr>check_sum := msg_check_sum m, B := msg_B m, N := msg_N m,
                   row_parities := msg_rows m, col_parities := msg_cols m\<rparr>))"
  by (simp add: load_from_serialized_def Let_def prefix_ok_def dims_ok_def row_sum_ok_def
      msg_check_sum_def msg_B_def msg_N_def msg_rows_def msg_cols_def)

lemma bytes_at_update_outside:
  "p < off \<or> off + n \<le> p \<Longrightarrow> bytes_at (xs[p := v]) off n = bytes_at xs off n"
  by (auto simp: bytes_at_def drop_update_swap)

lemma bytes_at_update_inside:
  assumes "off \<le> p" and "p < off + n" and "p < length xs" and "v \<noteq> xs ! p"
  shows "bytes_at (xs[p := v]) off n \<noteq> bytes_at xs off n"
proof
  assume "bytes_at (xs[p := v]) off n = bytes_at xs off n"
  then have "bytes_at (xs[p := v]) off n ! (p - off) = bytes_at xs off n ! (p - off)"
    by simp
  with assms show False
    by (simp add: bytes_at_def)
qed

lemma flip_bit_at_update:
  "flip_bit_at xs idx = xs[idx div 8 := xs ! (idx div 8) XOR drop_bit (idx mod 8) 0x80]"
  by (simp add: flip_bit_at_def)

lemma flip_bit_at_byte_ne: "(xs :: byte list) ! (idx div 8) XOR drop_bit (idx mod 8) 0x80 \<noteq> xs ! (idx div 8)"
  by (rule xor_ne_self) (simp add: mask_nonzero)

lemma load_flip_prefix:
  assumes wf: "hdr_wf h" and idx: "idx < 128"
  shows "load_from_serialized tgt (flip_bit_at (serialize h) idx) = (False, tgt)"
proof -
  define p where "p = idx div 8"
  define v where "v = serialize h ! p XOR drop_bit (idx mod 8) 0x80"
  have f: "flip_bit_at (serialize h) idx = (serialize h)[p := v]"
    by (simp add: flip_bit_at_update p_def v_def)
  have ne: "v \<noteq> serialize h ! p"
    unfolding v_def p_def by (rule flip_bit_at_byte_ne)
  from idx have p: "p < 16" by (simp add: p_def)
  have len: "p < length (serialize h)"
    using p by (simp add: length_serialize [OF wf])
  note s = serialize_fields(1,2) [OF wf]
  have "bytes_at ((serialize h)[p := v]) 0 8 \<noteq> bytes_at ((serialize h)[p := v]) 8 8"
  proof (cases "p < 8")
    case True
    then have "bytes_at ((serialize h)[p := v]) 8 8 = bytes_at (serialize h) 8 8"
      by (intro bytes_at_update_outside) simp
    moreover from True have "bytes_at ((serialize h)[p := v]) 0 8 \<noteq> bytes_at (serialize h) 0 8"
      using len ne by (intro bytes_at_update_inside) simp_all
    ultimately show ?thesis by (simp add: s)
  next
    case False
    then have "bytes_at ((serialize h)[p := v]) 0 8 = bytes_at (serialize h) 0 8"
      by (intro bytes_at_update_outside) simp
    moreover from False p have "bytes_at ((serialize h)[p := v]) 8 8 \<noteq> bytes_at (serialize h) 8 8"
      using len ne by (intro bytes_at_update_inside) simp_all
    ultimately show ?thesis by (simp add: s)
  qed
  then show ?thesis
    by (simp add: f load_from_serialized_cases prefix_ok_def)
qed

lemma le32_word_inj:
  assumes "length xs = 4" and "length ys = 4" and "le32_word xs = le32_word ys"
  shows "xs = ys"
  using assms by (metis le32_bytes_word)

lemma load_flip_sum:
  assumes wf: "hdr_wf h" and idx: "128 \<le> idx" "idx < 160"
  shows "load_from_serialized tgt (flip_bit_at (serialize h) idx)
           = (False, tgt\<lparr>check_sum := check_sum h, B := B h, N := N h\<rparr>)"
proof -
  define p where "p = idx div 8"
  define v where "v = serialize h ! p XOR drop_bit (idx mod 8) 0x80"
  define m' where "m' = (serialize h)[p := v]"
  have f: "flip_bit_at (serialize h) idx = m'"
    by (simp add: flip_bit_at_update p_def v_def m'_def)
  have ne: "v \<noteq> serialize h ! p"
    unfolding v_def p_def by (rule flip_bit_at_byte_ne)
  from idx have p: "16 \<le> p" "p < 20" by (simp_all add: p_def)
  have len: "p < length (serialize h)"
    using p by (simp add: length_serialize [OF wf])
  note s = serialize_fields [OF wf]
  have same: "bytes_at m' 0 8 = bytes_at (serialize h) 0 8"
    "bytes_at m' 8 8 = bytes_at (serialize h) 8 8"
    "bytes_at m' 0 4 = bytes_at (serialize h) 0 4"
    "bytes_at m' 4 2 = bytes_at (serialize h) 4 2"
    "bytes_at m' 6 2 = bytes_at (serialize h) 6 2"
    unfolding m'_def using p by (intro bytes_at_update_outside; simp)+
  have pre: "prefix_ok m'" by (simp add: prefix_ok_def same s)
  have sc: "msg_check_sum m' = check_sum h" "msg_B m' = B h" "msg_N m' = N h"
    by (simp_all add: msg_check_sum_def msg_B_def msg_N_def same s le32_word_bytes le16_word_bytes)
  have rowsum: "sum_row_parities (unat (B h)) (\<lambda>b. m' ! (20 + b))
                  = sum_row_parities (unat (B h)) (\<lambda>b. row_parities h ! b)"
    unfolding m'_def using p
    by (intro sum_row_parities_cong) (simp add: serialize_row_byte [OF wf])
  have "bytes_at m' 16 4 \<noteq> bytes_at (serialize h) 16 4"
    unfolding m'_def using p len ne by (intro bytes_at_update_inside) simp_all
  moreover have "length (bytes_at m' 16 4) = 4" "length (bytes_at (serialize h) 16 4) = 4"
    using length_serialize [OF wf] by (simp_all add: bytes_at_def m'_def)
  ultimately have "le32_word (bytes_at m' 16 4) \<noteq> le32_word (bytes_at (serialize h) 16 4)"
    using le32_word_inj by blast
  then have "\<not> row_sum_ok m'"
    by (simp add: row_sum_ok_def sc rowsum s le32_word_bytes)
  with pre show ?thesis
    by (simp add: f load_from_serialized_cases sc)
qed

section \<open>The values of the column parities\<close>

text \<open>
  \<open>byte_parity\<close> is 0 or 1, so the loop of \<open>calculate_parities\<close> keeps every column
  parity 0 or 1.
\<close>

lemma byte_parity_01: "byte_parity c = 0 \<or> byte_parity c = 1"
proof -
  have x: "\<And>a b :: byte. (a = 0 \<or> a = 1) \<Longrightarrow> (b = 0 \<or> b = 1) \<Longrightarrow> (a XOR b = 0 \<or> a XOR b = 1)"
    by auto
  have b: "\<And>k. drop_bit k c AND 1 = 0 \<or> drop_bit k c AND 1 = 1"
    by (simp add: drop_bit_and_one)
  have "c AND 1 = 0 \<or> c AND 1 = 1"
    using b [of 0] by simp
  then show ?thesis
    unfolding byte_parity_unfold by (intro x b)
qed

lemma parities_step_01:
  assumes "set (snd rc) \<subseteq> {0, 1}"
  shows "set (snd (parities_step b buf i rc)) \<subseteq> {0, 1}"
proof (cases "i div b < length (snd rc)")
  case False
  with assms show ?thesis by (simp add: parities_step_def list_update_beyond)
next
  case True
  with assms have "snd rc ! (i div b) = 0 \<or> snd rc ! (i div b) = 1"
    using nth_mem by blast
  with byte_parity_01 [of "buf ! i"]
  have "snd rc ! (i div b) XOR byte_parity (buf ! i) \<in> {0, 1}"
    by auto
  with assms show ?thesis
    using set_update_subset_insert [of "snd rc" "i div b"]
    by (auto simp: parities_step_def)
qed

lemma fold_parities_01:
  "set (snd rc) \<subseteq> {0, 1} \<Longrightarrow> set (snd (fold (parities_step b buf) js rc)) \<subseteq> {0, 1}"
  by (induction js arbitrary: rc) (simp_all add: parities_step_01)

lemma ctor_cols_01: "set (col_parities (ParityHdr_ctor rows cols buf)) \<subseteq> {0, 1}"
proof -
  have "set (snd (replicate (unat rows) (0 :: byte), replicate (unat cols) (0 :: byte))) \<subseteq> {0, 1}"
    by auto
  from fold_parities_01 [OF this] show ?thesis
    by (simp add: ParityHdr_ctor_def calculate_parities_def Let_def)
qed

section \<open>The outcomes of error localization\<close>

text \<open>
  The bit loop finds the set bits of \<open>flips\<close> from the most significant one down, and
  \<open>find_error_locations\<close> is decided by the three counts.
\<close>

lemma msb_test: "n < 8 \<Longrightarrow> (0x80 AND push_bit n (x :: byte) \<noteq> 0) = bit x (7 - n)"
proof -
  assume n: "n < 8"
  have "(0x80 AND push_bit n x \<noteq> 0) = (push_bit n x AND 2 ^ 7 \<noteq> 0)"
    by (simp add: ac_simps)
  also have "\<dots> = bit (push_bit n x) 7"
    by (simp only: and_exp_eq_0_iff_not_bit not_not)
  also from n have "\<dots> = bit x (7 - n)"
    by (simp add: bit_push_bit_iff)
  finally show ?thesis .
qed

lemma fold_bit_step:
  assumes "n \<le> 8"
  shows "fold bit_step [0..<n] (flips, -1, 0)
           = (push_bit n flips,
              if filter (\<lambda>b. bit flips (7 - b)) [0..<n] = [] then -1
              else int (last (filter (\<lambda>b. bit flips (7 - b)) [0..<n])),
              int (length (filter (\<lambda>b. bit flips (7 - b)) [0..<n])))"
  using assms
proof (induction n)
  case 0
  show ?case by simp
next
  case (Suc n)
  then have n: "n < 8" by simp
  have p: "push_bit 1 (push_bit n flips) = push_bit (Suc n) flips"
    by (simp add: push_bit_double mult.commute)
  from Suc n show ?case
    by (simp add: bit_step_def msb_test [OF n] p del: push_bit_Suc)
qed

lemma scan_bits_eq:
  "scan_bits flips
     = (if set_bits flips = [] then -1 else int (last (set_bits flips)),
        int (length (set_bits flips)))"
  by (simp add: scan_bits_def set_bits_def fold_bit_step)

lemma find_error_locations_eq:
  "find_error_locations rcvd_hdr t_hdr ij =
     (if length (col_mismatches rcvd_hdr t_hdr) = 0 then Inl (PC_Exception msg_no_col)
      else if length (col_mismatches rcvd_hdr t_hdr) > 1 then Inl (PC_Exception msg_many_cols)
      else if length (row_mismatches rcvd_hdr t_hdr) = 0 then Inl (PC_Exception msg_no_row)
      else if length (row_mismatches rcvd_hdr t_hdr) > 1 then Inl (PC_Exception msg_many_rows)
      else if length (set_bits (bad_byte rcvd_hdr t_hdr)) \<noteq> 1
        then Inl (PC_Exception msg_many_bits)
      else Inr (8 * int (last (row_mismatches rcvd_hdr t_hdr))
                  + int (last (set_bits (bad_byte rcvd_hdr t_hdr))),
                int (last (col_mismatches rcvd_hdr t_hdr))))"
  by (auto simp: find_error_locations_def scan_mismatch_eq scan_bits_eq Let_def
      col_mismatches_def row_mismatches_def bad_byte_def)

section \<open>The outcomes of a repair\<close>

text \<open>
  The outcome of \<open>repair_byte_array\<close> case by case; two concrete headers; and equal
  headers have equal checksums.
\<close>

lemma ctor_2_2_a:
  "ParityHdr_ctor 2 2 [1, 2, 3, 4]
     = \<lparr>check_sum = 13, B = 2, N = 2, row_parities = [2, 6], col_parities = [0, 1]\<rparr>"
  by code_simp

lemma ctor_2_2_b:
  "ParityHdr_ctor 2 2 [1, 3, 2, 4]
     = \<lparr>check_sum = 15, B = 2, N = 2, row_parities = [3, 7], col_parities = [1, 0]\<rparr>"
  by code_simp

lemma messages_distinct:
  "distinct [msg_no_col, msg_many_cols, msg_no_row, msg_many_rows, msg_many_bits]
   \<and> msg_bad_check_sum \<noteq> msg_dimension_mismatch"
  by (simp add: msg_no_col_def msg_many_cols_def msg_no_row_def msg_many_rows_def
      msg_many_bits_def msg_bad_check_sum_def msg_dimension_mismatch_def)

lemma repair_outcome:
  "fst (repair_byte_array rcvd_hdr t_hdr t) =
     (if \<not> confirm_check_sum rcvd_hdr then Some (runtime_error msg_bad_check_sum)
      else if operator_eq rcvd_hdr t_hdr then None
      else if B rcvd_hdr \<noteq> B t_hdr \<or> N rcvd_hdr \<noteq> N t_hdr
        then Some (runtime_error msg_dimension_mismatch)
      else if length (col_mismatches rcvd_hdr t_hdr) = 0 then Some (PC_Exception msg_no_col)
      else if length (col_mismatches rcvd_hdr t_hdr) > 1 then Some (PC_Exception msg_many_cols)
      else if length (row_mismatches rcvd_hdr t_hdr) = 0 then Some (PC_Exception msg_no_row)
      else if length (row_mismatches rcvd_hdr t_hdr) > 1 then Some (PC_Exception msg_many_rows)
      else if length (set_bits (bad_byte rcvd_hdr t_hdr)) \<noteq> 1
        then Some (PC_Exception msg_many_bits)
      else None)"
  by (simp add: repair_byte_array_def find_error_locations_eq)

lemma take_eq_nth:
  assumes "take n xs = take n ys" and "i < n"
  shows "xs ! i = ys ! i"
  using assms by (metis nth_take)

lemma operator_eq_calc:
  assumes "operator_eq lhs rhs"
  shows "calc_check_sum lhs = calc_check_sum rhs"
proof -
  from assms have s: "B lhs = B rhs" "N lhs = N rhs"
    and r: "take (unat (B lhs)) (row_parities lhs) = take (unat (B lhs)) (row_parities rhs)"
    and c: "take (unat (N lhs)) (col_parities lhs) = take (unat (N lhs)) (col_parities rhs)"
    by (simp_all add: operator_eq_def split: if_splits)
  have fr: "\<And>a :: 32 word. fold (\<lambda>i s. s + ucast (row_parities lhs ! i)) [0..<unat (B lhs)] a
              = fold (\<lambda>i s. s + ucast (row_parities rhs ! i)) [0..<unat (B lhs)] a"
    by (rule fold_cong) (simp_all add: take_eq_nth [OF r])
  have fc: "\<And>a :: 32 word. fold (\<lambda>j s. s + ucast (col_parities lhs ! j)) [0..<unat (N lhs)] a
              = fold (\<lambda>j s. s + ucast (col_parities rhs ! j)) [0..<unat (N lhs)] a"
    by (rule fold_cong) (simp_all add: take_eq_nth [OF c])
  show ?thesis
    by (simp add: calc_check_sum_def fr fc s [symmetric])
qed

lemma operator_eq_confirm:
  assumes "operator_eq lhs rhs" and "confirm_check_sum rhs"
  shows "confirm_check_sum lhs"
proof -
  from assms(1) have "check_sum lhs = check_sum rhs"
    by (simp add: operator_eq_def split: if_splits)
  with assms show ?thesis
    by (simp add: confirm_check_sum_def operator_eq_calc)
qed

lemma set_bits_less: "b \<in> set (set_bits x) \<Longrightarrow> b < 8"
  by (simp add: set_bits_def)

lemma last_set_bits_less: "length (set_bits x) = 1 \<Longrightarrow> last (set_bits x) < 8"
proof -
  assume "length (set_bits x) = 1"
  then have "set_bits x \<noteq> []" by auto
  then have "last (set_bits x) \<in> set (set_bits x)" by (rule last_in_set)
  then show ?thesis by (rule set_bits_less)
qed

lemma repair_result:
  "repair_byte_array rcvd_hdr t_hdr t =
     (if \<not> confirm_check_sum rcvd_hdr then (Some (runtime_error msg_bad_check_sum), t)
      else if operator_eq rcvd_hdr t_hdr then (None, t)
      else if B rcvd_hdr \<noteq> B t_hdr \<or> N rcvd_hdr \<noteq> N t_hdr
        then (Some (runtime_error msg_dimension_mismatch), t)
      else if length (col_mismatches rcvd_hdr t_hdr) = 0 then (Some (PC_Exception msg_no_col), t)
      else if length (col_mismatches rcvd_hdr t_hdr) > 1
        then (Some (PC_Exception msg_many_cols), t)
      else if length (row_mismatches rcvd_hdr t_hdr) = 0 then (Some (PC_Exception msg_no_row), t)
      else if length (row_mismatches rcvd_hdr t_hdr) > 1
        then (Some (PC_Exception msg_many_rows), t)
      else if length (set_bits (bad_byte rcvd_hdr t_hdr)) \<noteq> 1
        then (Some (PC_Exception msg_many_bits), t)
      else (None,
            xor_at t
              (to_int32 (to_int32 (int (last (col_mismatches rcvd_hdr t_hdr)) * uint (B rcvd_hdr))
                 + int (last (row_mismatches rcvd_hdr t_hdr))))
              (drop_bit (last (set_bits (bad_byte rcvd_hdr t_hdr))) 0x80)))"
proof (cases "length (set_bits (bad_byte rcvd_hdr t_hdr)) = 1")
  case False
  then show ?thesis
    by (simp add: repair_byte_array_def find_error_locations_eq)
next
  case True
  note b = last_set_bits_less [OF True]
  from b have d: "int (last (set_bits (bad_byte rcvd_hdr t_hdr))) div 8 = 0"
    and m: "nat (int (last (set_bits (bad_byte rcvd_hdr t_hdr))) mod 8)
              = last (set_bits (bad_byte rcvd_hdr t_hdr))"
    by simp_all
  show ?thesis
    by (simp add: repair_byte_array_def find_error_locations_eq True d m)
qed


lemma ctor_3_3_zero:
  "ParityHdr_ctor 3 3 [0, 0, 0, 0, 0, 0, 0, 0, 0]
     = \<lparr>check_sum = 6, B = 3, N = 3, row_parities = [0, 0, 0], col_parities = [0, 0, 0]\<rparr>"
  by code_simp

lemma ctor_3_3_flipped:
  "ParityHdr_ctor 3 3 [0, 0, 0, 0, 16, 0, 0, 0, 0]
     = \<lparr>check_sum = 23, B = 3, N = 3, row_parities = [0, 16, 0], col_parities = [0, 1, 0]\<rparr>"
  by code_simp

section \<open>The derived parities\<close>

text \<open>
  Within the range of an \<^verbatim>\<open>int\<close> the constructor derives the parities of the data
  model. For a byte array of \<open>rows * cols\<close> bytes, at most \<open>2147483647\<close>, it leaves in
  \<open>row_parities ! r\<close> the XOR of the bytes at the positions \<open>i\<close> with \<open>i mod rows = r\<close>,
  and in \<open>col_parities ! c\<close> the XOR, over the positions \<open>i\<close> with \<open>i div rows = c\<close>, of
  the XOR of the eight bits of byte \<open>i\<close>; the two arrays have \<open>rows\<close> and \<open>cols\<close>
  elements.
\<close>

theorem ctor_parities:
  assumes "unat rows * unat cols \<le> 2147483647"
    and "length buf = unat rows * unat cols"
  shows "length (row_parities (ParityHdr_ctor rows cols buf)) = unat rows
       \<and> length (col_parities (ParityHdr_ctor rows cols buf)) = unat cols
       \<and> (\<forall>r < unat rows.
            row_parities (ParityHdr_ctor rows cols buf) ! r = row_xor (unat rows) buf (length buf) r)
       \<and> (\<forall>c < unat cols.
            col_parities (ParityHdr_ctor rows cols buf) ! c = col_xor (unat rows) buf (length buf) c)"
  using ctor_inv [OF assms(1), of buf] assms(2)
  by (simp add: parities_inv_def)

text \<open>Two rows and three columns: row 1 and column 2 of the array \<open>1, 2, 3, 4, 5, 7\<close>.\<close>

theorem ctor_parities_witness:
  "unat (2 :: 16 word) * unat (3 :: 16 word) \<le> 2147483647
   \<and> length [1, 2, 3, 4, 5, 7 :: byte] = unat (2 :: 16 word) * unat (3 :: 16 word)
   \<and> (1 :: nat) < unat (2 :: 16 word)
   \<and> row_parities (ParityHdr_ctor 2 3 [1, 2, 3, 4, 5, 7]) ! 1
       = row_xor (unat (2 :: 16 word)) [1, 2, 3, 4, 5, 7] (length [1, 2, 3, 4, 5, 7 :: byte]) 1
   \<and> (2 :: nat) < unat (3 :: 16 word)
   \<and> col_parities (ParityHdr_ctor 2 3 [1, 2, 3, 4, 5, 7]) ! 2
       = col_xor (unat (2 :: 16 word)) [1, 2, 3, 4, 5, 7] (length [1, 2, 3, 4, 5, 7 :: byte]) 2"
  using ctor_parities [of 2 3 "[1, 2, 3, 4, 5, 7]"] by simp

text \<open>
  Claim C3 says that the constructor derives these parities for every buffer of positive
  dimensions. The code misses this where \<^verbatim>\<open>B * N\<close> does not fit the \<^verbatim>\<open>int L\<close> of
  \<open>calculate_parities\<close>. With 46341 rows and 46341 columns the signed product overflows;
  where it wraps around the loop does not run, and row parity 0 stays zero although byte 0
  of the array is \<open>0x80\<close> and every other byte is zero, so that the XOR of row 0 is
  \<open>0x80\<close>.
\<close>

theorem ctor_parities_overflow_failure:
  "length (flip_bit_at (replicate 2147488281 0) 0) = unat (46341 :: 16 word) * unat (46341 :: 16 word)
   \<and> row_parities (ParityHdr_ctor 46341 46341 (flip_bit_at (replicate 2147488281 0) 0)) ! 0 = 0
   \<and> row_xor (unat (46341 :: 16 word)) (flip_bit_at (replicate 2147488281 0) 0)
         (length (flip_bit_at (replicate 2147488281 0) 0)) 0 = 0x80"
  using overflow_parity_values [of 46341 46341 2147488281] by (simp add: flip_bit_at_def)

text \<open>The stored row parity is not the XOR of the row.\<close>

theorem ctor_parities_overflow_failure_witness:
  "row_parities (ParityHdr_ctor 46341 46341 (flip_bit_at (replicate 2147488281 0) 0)) ! 0
     \<noteq> row_xor (unat (46341 :: 16 word)) (flip_bit_at (replicate 2147488281 0) 0)
         (length (flip_bit_at (replicate 2147488281 0) 0)) 0"
  using ctor_parities_overflow_failure by (simp add: flip_bit_at_def)

section \<open>The checksum of a constructed header\<close>

text \<open>
  Claim C4. The header that the constructor builds from any dimensions and byte array stores
  as \<open>check_sum\<close> the 32-bit sum of \<open>rows\<close>, \<open>cols\<close>, every row parity and every column
  parity, and \<open>confirm_check_sum\<close> holds of it.
\<close>

theorem ctor_check_sum:
  "check_sum (ParityHdr_ctor rows cols buf) = spec_check_sum (ParityHdr_ctor rows cols buf)
   \<and> confirm_check_sum (ParityHdr_ctor rows cols buf)"
  using ctor_confirm [of rows cols buf] calc_check_sum_spec [OF ctor_wf, of rows cols buf]
  by (simp add: confirm_check_sum_def)

section \<open>Round trip through the wire format\<close>

text \<open>
  Claim C2. Let a header be built by the constructor from any dimensions and byte array.
  Loading its serialization into any header \<open>tgt\<close> returns \<^verbatim>\<open>true\<close>; the loaded header
  is the original one, field by field, so \<^verbatim>\<open>operator==\<close> holds between them, and it passes
  \<open>confirm_check_sum\<close>.
\<close>

theorem round_trip:
  "load_from_serialized tgt (serialize (ParityHdr_ctor rows cols buf))
     = (True, ParityHdr_ctor rows cols buf)
   \<and> operator_eq (snd (load_from_serialized tgt (serialize (ParityHdr_ctor rows cols buf))))
        (ParityHdr_ctor rows cols buf)
   \<and> confirm_check_sum (snd (load_from_serialized tgt (serialize (ParityHdr_ctor rows cols buf))))"
  using load_serialized [OF ctor_wf ctor_confirm, of tgt rows cols buf] ctor_confirm [of rows cols buf]
  by (simp add: hdr_replace_all operator_eq_refl)


text \<open>The header of the array \<open>1, 2, 3, 4, 5, 7\<close> in two rows and three columns.\<close>

theorem round_trip_witness:
  "load_from_serialized ParityHdr_default (serialize (ParityHdr_ctor 2 3 [1, 2, 3, 4, 5, 7]))
     = (True, ParityHdr_ctor 2 3 [1, 2, 3, 4, 5, 7])
   \<and> operator_eq
        (snd (load_from_serialized ParityHdr_default
                (serialize (ParityHdr_ctor 2 3 [1, 2, 3, 4, 5, 7]))))
        (ParityHdr_ctor 2 3 [1, 2, 3, 4, 5, 7])
   \<and> confirm_check_sum
        (snd (load_from_serialized ParityHdr_default
                (serialize (ParityHdr_ctor 2 3 [1, 2, 3, 4, 5, 7]))))"
  by (rule round_trip)

section \<open>What a failed load leaves behind\<close>

text \<open>
  Claim C5, as the code has it. When \<open>load_from_serialized\<close> returns \<^verbatim>\<open>false\<close>, what it
  leaves behind depends on the check that failed. If the two prefix copies differ, the header
  is untouched. If they agree and the test \<^verbatim>\<open>B + N > check_sum\<close> or the row-parity sum
  fails, the two parity arrays are untouched but \<open>check_sum\<close>, \<open>B\<close> and \<open>N\<close> hold the
  values of the prefix. If all three checks pass and only the final \<open>confirm_check_sum\<close>
  fails, all five fields have been replaced from the byte sequence.
\<close>

theorem load_failure_frame:
  assumes "\<not> fst (load_from_serialized tgt m)"
  shows "(\<not> prefix_ok m \<longrightarrow> snd (load_from_serialized tgt m) = tgt)
       \<and> (prefix_ok m \<and> \<not> (dims_ok m \<and> row_sum_ok m) \<longrightarrow>
            snd (load_from_serialized tgt m)
              = tgt\<lparr>check_sum := msg_check_sum m, B := msg_B m, N := msg_N m\<rparr>)
       \<and> (prefix_ok m \<and> dims_ok m \<and> row_sum_ok m \<longrightarrow>
            snd (load_from_serialized tgt m)
              = tgt\<lparr>check_sum := msg_check_sum m, B := msg_B m, N := msg_N m,
                     row_parities := msg_rows m, col_parities := msg_cols m\<rparr>
            \<and> \<not> confirm_check_sum (snd (load_from_serialized tgt m)))"
  using assms by (auto simp: load_from_serialized_cases split: if_splits)

text \<open>
  Three byte sequences loaded into the default header: one whose prefix copies differ, one
  with one row, no column and checksum 0, and one with one row, one column and the wrong
  checksum 5.
\<close>

theorem load_failure_frame_witness:
  "\<not> fst (load_from_serialized ParityHdr_default ([1, 0, 0, 0, 0, 0, 0, 0, 0, 0, 0, 0, 0, 0, 0, 0, 0, 0, 0, 0]))
   \<and> \<not> prefix_ok ([1, 0, 0, 0, 0, 0, 0, 0, 0, 0, 0, 0, 0, 0, 0, 0, 0, 0, 0, 0])
   \<and> snd (load_from_serialized ParityHdr_default ([1, 0, 0, 0, 0, 0, 0, 0, 0, 0, 0, 0, 0, 0, 0, 0, 0, 0, 0, 0])) = ParityHdr_default
   \<and> \<not> fst (load_from_serialized ParityHdr_default
              ([0, 0, 0, 0, 1, 0, 0, 0, 0, 0, 0, 0, 1, 0, 0, 0, 0, 0, 0, 0, 0]))
   \<and> snd (load_from_serialized ParityHdr_default
              ([0, 0, 0, 0, 1, 0, 0, 0, 0, 0, 0, 0, 1, 0, 0, 0, 0, 0, 0, 0, 0]))
       = \<lparr>check_sum = 0, B = 1, N = 0, row_parities = [], col_parities = []\<rparr>
   \<and> \<not> fst (load_from_serialized ParityHdr_default
              ([5, 0, 0, 0, 1, 0, 1, 0, 5, 0, 0, 0, 1, 0, 1, 0, 0, 0, 0, 0, 0, 0]))
   \<and> snd (load_from_serialized ParityHdr_default
              ([5, 0, 0, 0, 1, 0, 1, 0, 5, 0, 0, 0, 1, 0, 1, 0, 0, 0, 0, 0, 0, 0]))
       = \<lparr>check_sum = 5, B = 1, N = 1, row_parities = [0], col_parities = [0]\<rparr>"
proof -
  let ?m1 = "[1, 0, 0, 0, 0, 0, 0, 0, 0, 0, 0, 0, 0, 0, 0, 0, 0, 0, 0, 0 :: byte]"
  let ?m2 = "[0, 0, 0, 0, 1, 0, 0, 0, 0, 0, 0, 0, 1, 0, 0, 0, 0, 0, 0, 0, 0 :: byte]"
  let ?m3 = "[5, 0, 0, 0, 1, 0, 1, 0, 5, 0, 0, 0, 1, 0, 1, 0, 0, 0, 0, 0, 0, 0 :: byte]"
  have p1: "\<not> prefix_ok ?m1"
    by (simp add: prefix_ok_def bytes_at_def)
  then have f1: "\<not> fst (load_from_serialized ParityHdr_default ?m1)"
    by (simp add: load_from_serialized_cases)
  have p2: "prefix_ok ?m2" "\<not> dims_ok ?m2"
    by (simp_all add: prefix_ok_def dims_ok_def msg_B_def msg_N_def msg_check_sum_def
        bytes_at_def le32_word_def le16_word_def)
  then have f2: "\<not> fst (load_from_serialized ParityHdr_default ?m2)"
    by (simp add: load_from_serialized_cases)
  have v2: "msg_check_sum ?m2 = 0" "msg_B ?m2 = 1" "msg_N ?m2 = 0"
    by (simp_all add: msg_B_def msg_N_def msg_check_sum_def bytes_at_def le32_word_def
        le16_word_def)
  have v3: "msg_check_sum ?m3 = 5" "msg_B ?m3 = 1" "msg_N ?m3 = 1"
    by (simp_all add: msg_B_def msg_N_def msg_check_sum_def bytes_at_def le32_word_def
        le16_word_def)
  have p3: "prefix_ok ?m3" "dims_ok ?m3" "row_sum_ok ?m3"
    by (simp_all add: prefix_ok_def dims_ok_def row_sum_ok_def v3 sum_row_parities_def
        bytes_at_def le32_word_def)
  have r3: "msg_rows ?m3 = [0]" "msg_cols ?m3 = [0]"
    by (simp_all add: msg_rows_def msg_cols_def v3 bytes_at_def)
  have f3: "\<not> fst (load_from_serialized ParityHdr_default ?m3)"
    by (simp add: load_from_serialized_cases p3 v3 r3 ParityHdr_default_def confirm_check_sum_def
        calc_check_sum_def)
  from load_failure_frame [OF f1] p1
  have "snd (load_from_serialized ParityHdr_default ?m1) = ParityHdr_default"
    by blast
  moreover from load_failure_frame [OF f2] p2
  have "snd (load_from_serialized ParityHdr_default ?m2)
          = \<lparr>check_sum = 0, B = 1, N = 0, row_parities = [], col_parities = []\<rparr>"
    by (simp add: v2 ParityHdr_default_def)
  moreover from load_failure_frame [OF f3] p3
  have "snd (load_from_serialized ParityHdr_default ?m3)
          = \<lparr>check_sum = 5, B = 1, N = 1, row_parities = [0], col_parities = [0]\<rparr>"
    by (simp add: v3 r3 ParityHdr_default_def)
  ultimately show ?thesis using f1 p1 f2 f3 by blast
qed

text \<open>
  Claim C5 as stated fails on the last of these sequences: the call returns \<^verbatim>\<open>false\<close>, and
  yet the default header's empty row parities have been replaced and its \<open>B\<close> is 1.
\<close>

theorem load_failure_counterexample:
  "\<not> fst (load_from_serialized ParityHdr_default
            ([5, 0, 0, 0, 1, 0, 1, 0, 5, 0, 0, 0, 1, 0, 1, 0, 0, 0, 0, 0, 0, 0]))
   \<and> row_parities (snd (load_from_serialized ParityHdr_default
            ([5, 0, 0, 0, 1, 0, 1, 0, 5, 0, 0, 0, 1, 0, 1, 0, 0, 0, 0, 0, 0, 0])))
       \<noteq> row_parities ParityHdr_default
   \<and> B (snd (load_from_serialized ParityHdr_default
            ([5, 0, 0, 0, 1, 0, 1, 0, 5, 0, 0, 0, 1, 0, 1, 0, 0, 0, 0, 0, 0, 0])))
       \<noteq> B ParityHdr_default"
  by (simp add: load_from_serialized_def ParityHdr_default_def bytes_at_def le32_word_def
      le16_word_def sum_row_parities_def confirm_check_sum_def calc_check_sum_def Let_def)

section \<open>A flipped bit in a serialized header\<close>

text \<open>
  Claim C6, as the code has it. Take the serialization of a header that satisfies the class
  invariant and flip one of its bits. If the bit lies in the sixteen bytes of the doubled
  prefix, \<open>load_from_serialized\<close> returns \<^verbatim>\<open>false\<close> and the target header is untouched.
  If it lies in the four bytes of the row-parity sum, the call returns \<^verbatim>\<open>false\<close> and the
  two parity arrays of the target are untouched, but \<open>check_sum\<close>, \<open>B\<close> and \<open>N\<close> of the
  target have been overwritten with those of the serialized header.
\<close>

theorem load_flipped_header:
  assumes "hdr_wf h"
  shows "(idx < 128 \<longrightarrow>
            load_from_serialized tgt (flip_bit_at (serialize h) idx) = (False, tgt))
       \<and> (128 \<le> idx \<and> idx < 160 \<longrightarrow>
            load_from_serialized tgt (flip_bit_at (serialize h) idx)
              = (False, tgt\<lparr>check_sum := check_sum h, B := B h, N := N h\<rparr>))"
  using load_flip_prefix [OF assms, of idx tgt] load_flip_sum [OF assms, of idx tgt]
  by simp

text \<open>The header of the one-byte array \<open>0\<close>, with bit 5 and with bit 130 flipped.\<close>

theorem load_flipped_header_witness:
  "hdr_wf (ParityHdr_ctor 1 1 [0]) \<and> (5 :: nat) < 128
   \<and> load_from_serialized ParityHdr_default (flip_bit_at (serialize (ParityHdr_ctor 1 1 [0])) 5)
       = (False, ParityHdr_default)
   \<and> (128 :: nat) \<le> 130 \<and> (130 :: nat) < 160
   \<and> load_from_serialized ParityHdr_default (flip_bit_at (serialize (ParityHdr_ctor 1 1 [0])) 130)
       = (False, ParityHdr_default\<lparr>check_sum := check_sum (ParityHdr_ctor 1 1 [0]),
            B := B (ParityHdr_ctor 1 1 [0]), N := N (ParityHdr_ctor 1 1 [0])\<rparr>)"
  using load_flipped_header [OF ctor_wf [of 1 1 "[0]"], where idx = 5 and tgt = ParityHdr_default]
    load_flipped_header [OF ctor_wf [of 1 1 "[0]"], where idx = 130 and tgt = ParityHdr_default]
    ctor_wf [of 1 1 "[0]"]
  by simp

text \<open>
  Claim C6 as stated fails for a flip in the row-parity sum: with the most significant bit
  of byte 16 flipped the call returns \<^verbatim>\<open>false\<close>, but the default header, whose \<open>B\<close> was 0,
  now has \<open>B = 1\<close>.
\<close>

theorem load_flipped_sum_counterexample:
  "\<not> fst (load_from_serialized ParityHdr_default
            (flip_bit_at (serialize (ParityHdr_ctor 1 1 [0])) 128))
   \<and> B (snd (load_from_serialized ParityHdr_default
            (flip_bit_at (serialize (ParityHdr_ctor 1 1 [0])) 128)))
       \<noteq> B ParityHdr_default"
  using load_flip_sum [OF ctor_wf [of 1 1 "[0]"], where idx = 128 and tgt = ParityHdr_default]
  by (simp add: ctor_scalars ParityHdr_default_def)

section \<open>Column parities after construction and after loading\<close>

text \<open>
  Claim C9, as the code has it. Every column parity of a header built by the constructor is
  0 or 1. \<open>load_from_serialized\<close> does not look at the values: when it returns \<^verbatim>\<open>true\<close>,
  the column parities of the header are the column-parity bytes of the byte sequence as they
  came, so they are 0 or 1 only if those bytes are.
\<close>

theorem col_parities_values:
  "set (col_parities (ParityHdr_ctor rows cols buf)) \<subseteq> {0, 1}
   \<and> (fst (load_from_serialized tgt m) \<longrightarrow>
        col_parities (snd (load_from_serialized tgt m)) = msg_cols m)"
  using ctor_cols_01 [of rows cols buf]
  by (simp add: load_from_serialized_cases)

text \<open>A sequence for no row and one column whose parity byte is 1, with checksum 2.\<close>

theorem col_parities_values_witness:
  "fst (load_from_serialized ParityHdr_default
          [2, 0, 0, 0, 0, 0, 1, 0, 2, 0, 0, 0, 0, 0, 1, 0, 0, 0, 0, 0, 1])
   \<and> col_parities (snd (load_from_serialized ParityHdr_default
          [2, 0, 0, 0, 0, 0, 1, 0, 2, 0, 0, 0, 0, 0, 1, 0, 0, 0, 0, 0, 1]))
       = msg_cols [2, 0, 0, 0, 0, 0, 1, 0, 2, 0, 0, 0, 0, 0, 1, 0, 0, 0, 0, 0, 1]"
proof -
  have "fst (load_from_serialized ParityHdr_default
          [2, 0, 0, 0, 0, 0, 1, 0, 2, 0, 0, 0, 0, 0, 1, 0, 0, 0, 0, 0, 1])"
    by (simp add: load_from_serialized_def ParityHdr_default_def bytes_at_def le32_word_def
      le16_word_def sum_row_parities_def confirm_check_sum_def calc_check_sum_def Let_def)
  with col_parities_values [of 0 0 "[]" ParityHdr_default
      "[2, 0, 0, 0, 0, 0, 1, 0, 2, 0, 0, 0, 0, 0, 1, 0, 0, 0, 0, 0, 1]"]
  show ?thesis by blast
qed

text \<open>
  Claim C9 as stated fails for loading: the sequence for no row and one column with the
  parity byte 2 and the matching checksum 3 is accepted, and the header then holds 2 as a
  column parity.
\<close>

theorem col_parities_counterexample:
  "fst (load_from_serialized ParityHdr_default
          [3, 0, 0, 0, 0, 0, 1, 0, 3, 0, 0, 0, 0, 0, 1, 0, 0, 0, 0, 0, 2])
   \<and> col_parities (snd (load_from_serialized ParityHdr_default
          [3, 0, 0, 0, 0, 0, 1, 0, 3, 0, 0, 0, 0, 0, 1, 0, 0, 0, 0, 0, 2])) = [2]"
  by (simp add: load_from_serialized_def ParityHdr_default_def bytes_at_def le32_word_def
      le16_word_def sum_row_parities_def confirm_check_sum_def calc_check_sum_def Let_def)

section \<open>The frame of a repair\<close>

text \<open>
  Claim C7, as the code has it. \<open>repair_byte_array\<close> runs its checks in this order and
  stops at the first that decides. A trusted header that fails \<open>confirm_check_sum\<close> raises
  the bad-checksum failure, also when the two headers are equal. Otherwise equal headers
  return without an exception. Otherwise a difference in \<open>B\<close> or \<open>N\<close> raises the
  dimension-mismatch failure. Otherwise no mismatching column, more than one, no mismatching
  row, more than one, or a bad byte without exactly one set bit raises the failure of that
  name. In all these cases the byte array \<open>t\<close> is as it was. Only when every check has
  passed is \<open>t\<close> changed, by the single \<^verbatim>\<open>t[j * B + i / 8] ^= 0x80 >> i % 8\<close> at the
  located column, row and bit, and the call returns without an exception.
\<close>

theorem repair_frame:
  "repair_byte_array rcvd_hdr t_hdr t =
     (if \<not> confirm_check_sum rcvd_hdr then (Some (runtime_error msg_bad_check_sum), t)
      else if operator_eq rcvd_hdr t_hdr then (None, t)
      else if B rcvd_hdr \<noteq> B t_hdr \<or> N rcvd_hdr \<noteq> N t_hdr
        then (Some (runtime_error msg_dimension_mismatch), t)
      else if length (col_mismatches rcvd_hdr t_hdr) = 0 then (Some (PC_Exception msg_no_col), t)
      else if length (col_mismatches rcvd_hdr t_hdr) > 1
        then (Some (PC_Exception msg_many_cols), t)
      else if length (row_mismatches rcvd_hdr t_hdr) = 0 then (Some (PC_Exception msg_no_row), t)
      else if length (row_mismatches rcvd_hdr t_hdr) > 1
        then (Some (PC_Exception msg_many_rows), t)
      else if length (set_bits (bad_byte rcvd_hdr t_hdr)) \<noteq> 1
        then (Some (PC_Exception msg_many_bits), t)
      else (None,
            xor_at t
              (to_int32 (to_int32 (int (last (col_mismatches rcvd_hdr t_hdr)) * uint (B rcvd_hdr))
                 + int (last (row_mismatches rcvd_hdr t_hdr))))
              (drop_bit (last (set_bits (bad_byte rcvd_hdr t_hdr))) 0x80)))"
  by (rule repair_result)

text \<open>
  Five calls: a trusted header whose checksum is wrong; equal headers of the one-byte array
  \<open>0\<close>; headers of one and of two columns; the array \<open>1, 2, 3, 4\<close> received as
  \<open>1, 3, 2, 4\<close>, where both column parities differ; and nine zero bytes in three rows and
  three columns received with bit 3 of byte 4 flipped, which is flipped back.
\<close>

theorem repair_frame_witness:
  "repair_byte_array (ParityHdr_default\<lparr>check_sum := 1\<rparr>) ParityHdr_default [7]
     = (Some (runtime_error msg_bad_check_sum), [7])
   \<and> repair_byte_array (ParityHdr_ctor 1 1 [0]) (ParityHdr_ctor 1 1 [0]) [0] = (None, [0])
   \<and> repair_byte_array (ParityHdr_ctor 1 1 [0]) (ParityHdr_ctor 1 2 [0, 0]) [0, 0]
       = (Some (runtime_error msg_dimension_mismatch), [0, 0])
   \<and> repair_byte_array (ParityHdr_ctor 2 2 [1, 2, 3, 4]) (ParityHdr_ctor 2 2 [1, 3, 2, 4])
        [1, 3, 2, 4]
       = (Some (PC_Exception msg_many_cols), [1, 3, 2, 4])
   \<and> repair_byte_array (ParityHdr_ctor 3 3 [0, 0, 0, 0, 0, 0, 0, 0, 0])
        (ParityHdr_ctor 3 3 [0, 0, 0, 0, 16, 0, 0, 0, 0]) [0, 0, 0, 0, 16, 0, 0, 0, 0]
       = (None, [0, 0, 0, 0, 0, 0, 0, 0, 0])"
proof -
  let ?bad = "ParityHdr_default\<lparr>check_sum := 1\<rparr>"
  have "\<not> confirm_check_sum ?bad"
    by (simp add: ParityHdr_default_def confirm_check_sum_def calc_check_sum_def)
  with repair_frame [of ?bad ParityHdr_default "[7]"]
  have a: "repair_byte_array ?bad ParityHdr_default [7]
             = (Some (runtime_error msg_bad_check_sum), [7])"
    by simp
  from repair_frame [of "ParityHdr_ctor 1 1 [0]" "ParityHdr_ctor 1 1 [0]" "[0]"]
  have b: "repair_byte_array (ParityHdr_ctor 1 1 [0]) (ParityHdr_ctor 1 1 [0]) [0] = (None, [0])"
    by (simp add: ctor_confirm operator_eq_refl)
  have "\<not> operator_eq (ParityHdr_ctor 1 1 [0]) (ParityHdr_ctor 1 2 [0, 0])"
    by (simp add: operator_eq_def ctor_scalars)
  with repair_frame [of "ParityHdr_ctor 1 1 [0]" "ParityHdr_ctor 1 2 [0, 0]" "[0, 0]"]
  have c: "repair_byte_array (ParityHdr_ctor 1 1 [0]) (ParityHdr_ctor 1 2 [0, 0]) [0, 0]
       = (Some (runtime_error msg_dimension_mismatch), [0, 0])"
    by (simp add: ctor_confirm ctor_scalars)
  have "\<not> operator_eq (ParityHdr_ctor 2 2 [1, 2, 3, 4]) (ParityHdr_ctor 2 2 [1, 3, 2, 4])"
    by (simp add: ctor_2_2_a ctor_2_2_b operator_eq_def)
  moreover have "length (col_mismatches (ParityHdr_ctor 2 2 [1, 2, 3, 4])
                    (ParityHdr_ctor 2 2 [1, 3, 2, 4])) = 2"
    by (simp add: ctor_2_2_a ctor_2_2_b col_mismatches_def upt_rec)
  ultimately have d: "repair_byte_array (ParityHdr_ctor 2 2 [1, 2, 3, 4])
        (ParityHdr_ctor 2 2 [1, 3, 2, 4]) [1, 3, 2, 4]
       = (Some (PC_Exception msg_many_cols), [1, 3, 2, 4])"
    using repair_frame [of "ParityHdr_ctor 2 2 [1, 2, 3, 4]" "ParityHdr_ctor 2 2 [1, 3, 2, 4]"
        "[1, 3, 2, 4]"]
    by (simp add: ctor_confirm ctor_scalars)
  let ?hs = "ParityHdr_ctor 3 3 [0, 0, 0, 0, 0, 0, 0, 0, 0]"
  let ?ht = "ParityHdr_ctor 3 3 [0, 0, 0, 0, 16, 0, 0, 0, 0]"
  have ne: "\<not> operator_eq ?hs ?ht"
    by (simp add: ctor_3_3_zero ctor_3_3_flipped operator_eq_def)
  have cm: "col_mismatches ?hs ?ht = [1]" and rm: "row_mismatches ?hs ?ht = [1]"
    by (simp_all add: ctor_3_3_zero ctor_3_3_flipped col_mismatches_def row_mismatches_def upt_rec)
  have bb: "bad_byte ?hs ?ht = 16"
    by (simp add: bad_byte_def rm) (simp add: ctor_3_3_zero ctor_3_3_flipped)
  have sb: "set_bits 16 = [3]"
    by (simp add: set_bits_def upt_8)
  have ix: "to_int32 (to_int32 3 + 1) = 4"
    by (simp add: to_int32_small)
  from repair_frame [of ?hs ?ht "[0, 0, 0, 0, 16, 0, 0, 0, 0]"] ne
  have e: "repair_byte_array ?hs ?ht [0, 0, 0, 0, 16, 0, 0, 0, 0]
             = (None, [0, 0, 0, 0, 0, 0, 0, 0, 0])"
    by (simp add: ctor_confirm ctor_scalars cm rm bb sb ix xor_at_def)
  from a b c d e show ?thesis by blast
qed

text \<open>
  Claim C7 as stated, that equal headers give success, fails for a trusted header with a wrong
  checksum: compared with an equal header, it raises the bad-checksum failure, because that
  check comes before the comparison.
\<close>

theorem repair_frame_counterexample:
  "operator_eq (ParityHdr_default\<lparr>check_sum := 1\<rparr>) (ParityHdr_default\<lparr>check_sum := 1\<rparr>)
   \<and> repair_byte_array (ParityHdr_default\<lparr>check_sum := 1\<rparr>)
         (ParityHdr_default\<lparr>check_sum := 1\<rparr>) [7]
       = (Some (runtime_error msg_bad_check_sum), [7])"
  by (simp add: operator_eq_refl repair_byte_array_def ParityHdr_default_def confirm_check_sum_def
      calc_check_sum_def)

section \<open>The reasons of a failed repair\<close>

text \<open>
  Claim C8. \<open>repair_byte_array\<close> fails in exactly seven ways, tried in this order, and
  succeeds otherwise. The two conditions of caller misuse, a trusted header that fails
  \<open>confirm_check_sum\<close> and a difference in \<open>B\<close> or \<open>N\<close>, throw a \<^verbatim>\<open>std::runtime_error\<close>,
  each with its own text. The five patterns that cannot be corrected (no column located,
  more than one column, no row located, more than one row, not exactly one bad bit in the bad
  byte) throw a \<^verbatim>\<open>PC_Exception\<close>, and their five texts are pairwise different.
\<close>

theorem repair_failure_reasons:
  "fst (repair_byte_array rcvd_hdr t_hdr t) =
     (if \<not> confirm_check_sum rcvd_hdr then Some (runtime_error msg_bad_check_sum)
      else if operator_eq rcvd_hdr t_hdr then None
      else if B rcvd_hdr \<noteq> B t_hdr \<or> N rcvd_hdr \<noteq> N t_hdr
        then Some (runtime_error msg_dimension_mismatch)
      else if length (col_mismatches rcvd_hdr t_hdr) = 0 then Some (PC_Exception msg_no_col)
      else if length (col_mismatches rcvd_hdr t_hdr) > 1 then Some (PC_Exception msg_many_cols)
      else if length (row_mismatches rcvd_hdr t_hdr) = 0 then Some (PC_Exception msg_no_row)
      else if length (row_mismatches rcvd_hdr t_hdr) > 1 then Some (PC_Exception msg_many_rows)
      else if length (set_bits (bad_byte rcvd_hdr t_hdr)) \<noteq> 1
        then Some (PC_Exception msg_many_bits)
      else None)
   \<and> distinct [msg_no_col, msg_many_cols, msg_no_row, msg_many_rows, msg_many_bits]
   \<and> msg_bad_check_sum \<noteq> msg_dimension_mismatch"
  using repair_outcome [of rcvd_hdr t_hdr t] messages_distinct by blast

text \<open>
  The array \<open>1, 2, 3, 4\<close> in two rows and two columns, received as \<open>1, 3, 2, 4\<close>: both
  column parities differ.
\<close>

theorem repair_failure_reasons_witness:
  "fst (repair_byte_array (ParityHdr_ctor 2 2 [1, 2, 3, 4]) (ParityHdr_ctor 2 2 [1, 3, 2, 4])
          [1, 3, 2, 4])
     = Some (PC_Exception msg_many_cols)"
proof -
  have "confirm_check_sum (ParityHdr_ctor 2 2 [1, 2, 3, 4])"
    by (rule ctor_confirm)
  moreover have "\<not> operator_eq (ParityHdr_ctor 2 2 [1, 2, 3, 4]) (ParityHdr_ctor 2 2 [1, 3, 2, 4])"
    by (simp add: ctor_2_2_a ctor_2_2_b operator_eq_def)
  moreover have "length (col_mismatches (ParityHdr_ctor 2 2 [1, 2, 3, 4])
                    (ParityHdr_ctor 2 2 [1, 3, 2, 4])) = 2"
    by (simp add: ctor_2_2_a ctor_2_2_b col_mismatches_def upt_rec)
  ultimately show ?thesis
    using repair_failure_reasons
      [of "ParityHdr_ctor 2 2 [1, 2, 3, 4]" "ParityHdr_ctor 2 2 [1, 3, 2, 4]" "[1, 3, 2, 4]"]
    by (simp add: ctor_scalars)
qed

section \<open>Single-bit correction\<close>

text \<open>
  Within the range of an \<^verbatim>\<open>int\<close> single-bit correction works. Let \<open>s\<close> be a byte array
  of \<open>rows * cols\<close> bytes, at most \<open>2147483647\<close>, and let one of its bits, \<open>idx\<close>, be
  flipped. The header of \<open>s\<close> passes \<open>confirm_check_sum\<close>, and \<open>repair_byte_array\<close>, given
  that header, the header derived from the corrupted array and the corrupted array, returns
  without an exception and leaves the array equal to \<open>s\<close>.
\<close>

theorem repair_single_flip:
  assumes "unat rows * unat cols \<le> 2147483647"
    and "length s = unat rows * unat cols"
    and "idx < 8 * length s"
  shows "confirm_check_sum (ParityHdr_ctor rows cols s)
       \<and> repair_byte_array (ParityHdr_ctor rows cols s) (ParityHdr_ctor rows cols (flip_bit_at s idx))
           (flip_bit_at s idx) = (None, s)"
  using assms by (rule repair_flip)

text \<open>
  The array of the specification's scenario: nine zero bytes as three rows and three columns,
  with bit 3 of the byte at offset 4 flipped.
\<close>

theorem repair_single_flip_witness:
  "unat (3 :: 16 word) * unat (3 :: 16 word) \<le> 2147483647
   \<and> length (replicate 9 (0 :: byte)) = unat (3 :: 16 word) * unat (3 :: 16 word)
   \<and> 35 < 8 * length (replicate 9 (0 :: byte))
   \<and> confirm_check_sum (ParityHdr_ctor 3 3 (replicate 9 0))
   \<and> repair_byte_array (ParityHdr_ctor 3 3 (replicate 9 0))
        (ParityHdr_ctor 3 3 (flip_bit_at (replicate 9 0) 35)) (flip_bit_at (replicate 9 0) 35)
      = (None, replicate 9 0)"
  using repair_single_flip [of 3 3 "replicate 9 0" 35] by simp

text \<open>
  Claim C1 says that a single flipped bit is repaired for every pair of positive dimensions.
  The code misses this where \<^verbatim>\<open>B * N\<close> does not fit the \<^verbatim>\<open>int L\<close> of
  \<open>calculate_parities\<close>. With 46341 rows and 46341 columns the array has \<open>2147488281\<close>
  bytes and the signed product overflows. The language leaves that undefined; where it wraps
  around, \<open>L\<close> is negative, the loop does not run, both headers hold zero parities and
  compare equal, and \<open>repair_byte_array\<close> returns with the flipped bit still in the array.
\<close>

theorem repair_overflow_failure:
  "length (replicate 2147488281 (0 :: byte)) = unat (46341 :: 16 word) * unat (46341 :: 16 word)
   \<and> to_int32 (uint (46341 :: 16 word) * uint (46341 :: 16 word)) < 0
   \<and> repair_byte_array (ParityHdr_ctor 46341 46341 (replicate 2147488281 0))
         (ParityHdr_ctor 46341 46341 (flip_bit_at (replicate 2147488281 0) 0))
         (flip_bit_at (replicate 2147488281 0) 0)
       = (None, flip_bit_at (replicate 2147488281 0) 0)
   \<and> flip_bit_at (replicate 2147488281 (0 :: byte)) 0 \<noteq> replicate 2147488281 0"
  using int32_prod_overflow [of 46341 46341]
    overflow_repair_value [of 46341 46341 2147488281]
    flipped_zeros_differ [of 2147488281]
  by simp

text \<open>The array that the call leaves behind is not the trusted one.\<close>

theorem repair_overflow_failure_witness:
  "snd (repair_byte_array (ParityHdr_ctor 46341 46341 (replicate 2147488281 0))
         (ParityHdr_ctor 46341 46341 (flip_bit_at (replicate 2147488281 0) 0))
         (flip_bit_at (replicate 2147488281 0) 0))
     \<noteq> replicate 2147488281 0"
  using repair_overflow_failure by simp

section \<open>The empty placeholder header\<close>

text \<open>
  Claim C10. A default-constructed header has checksum 0, rows 0 and cols 0, owns no parity
  bytes, and passes \<open>confirm_check_sum\<close>: the confirmation alone does not tell a populated
  header from the empty placeholder.
\<close>

theorem default_hdr_confirms:
  "check_sum ParityHdr_default = 0 \<and> B ParityHdr_default = 0 \<and> N ParityHdr_default = 0
   \<and> row_parities ParityHdr_default = [] \<and> col_parities ParityHdr_default = []
   \<and> confirm_check_sum ParityHdr_default"
  by (simp add: ParityHdr_default_def confirm_check_sum_def calc_check_sum_def)

end
